theory Spec2Isabelle
  imports Complex_Main "HOL-Library.Word" "HOL-Library.Signed_Division"
begin

unbundle bit_operations_syntax

section \<open>The modelled radiator valve of OTRadioLink\<close>

text \<open>
  A shallow embedding of \<^verbatim>\<open>OTRadValve_ModelledRadValve.cpp\<close>: the mean filter over the
  recent raw temperatures, the per-minute \<^verbatim>\<open>tick\<close> and the valve position computed by
  \<^verbatim>\<open>computeRequiredTRVPercentOpen\<close>.

  Integers follow C++: a \<^verbatim>\<open>uint8_t\<close> is an \<open>8 word\<close>; every arithmetic expression is
  evaluated on \<open>int\<close> after integer promotion (read with \<open>uint\<close>), and stored or returned
  as a \<^verbatim>\<open>uint8_t\<close> through \<open>word_of_int\<close>, which wraps modulo 256. Temperatures are C++
  \<^verbatim>\<open>int\<close>s in sixteenths of a degree; the source assumes them and their sums nowhere
  near the limits of \<^verbatim>\<open>int\<close>, so they are unbounded \<open>int\<close>s here. Integer division
  \<^verbatim>\<open>/\<close> truncates towards zero (\<open>sdiv\<close>), \<^verbatim>\<open>>> 4\<close> is the arithmetic shift
  (\<open>drop_bit 4\<close>) and \<^verbatim>\<open>& 0xf\<close> the two's complement mask (\<open>AND 15\<close>).
\<close>

type_synonym uint8_t = "8 word"

subsection \<open>Constants\<close>

text \<open>Offset from raw temperature to get reference temperature in C/16.\<close>

definition refTempOffsetC16 :: int where
  "refTempOffsetC16 = 8"

definition TRV_MIN_SLEW_PC :: int where
  "TRV_MIN_SLEW_PC = 7"

definition TRV_MAX_SLEW_PC_PER_MIN :: int where
  "TRV_MAX_SLEW_PC_PER_MIN = 5"

definition TRV_SLEW_PC_PER_MIN_VFAST :: int where
  "TRV_SLEW_PC_PER_MIN_VFAST = min 34 (4 * TRV_MAX_SLEW_PC_PER_MIN)"

definition TRV_SLEW_PC_PER_MIN_FAST :: int where
  "TRV_SLEW_PC_PER_MIN_FAST = min 20 (2 * TRV_MAX_SLEW_PC_PER_MIN)"

definition MAX_TEMP_JUMP_C16 :: int where
  "MAX_TEMP_JUMP_C16 = 3"

definition MIN_WINDOW_OPEN_TEMP_FALL_C16 :: int where
  "MIN_WINDOW_OPEN_TEMP_FALL_C16 = 16"

definition MIN_WINDOW_OPEN_TEMP_FALL_M :: nat where
  "MIN_WINDOW_OPEN_TEMP_FALL_M = 10"

text \<open>
  The constants below are declared in headers that are not part of the sources at hand
  (\<^verbatim>\<open>OTRadValve_AbstractRadValve.h\<close>, \<^verbatim>\<open>OTRadValve_ModelledRadValve.h\<close>), and the
  specification names them without giving values. They are parameters of the model:
  the valve thresholds, the frost-safety floor, the maximum run-on time, the length of the
  temperature history and the two anti-hunt delays loaded by \<^verbatim>\<open>valveTurndown()\<close> and
  \<^verbatim>\<open>valveTurnup()\<close>.
\<close>

record valve_params =
  DEFAULT_VALVE_PC_SAFER_OPEN :: uint8_t
  DEFAULT_VALVE_PC_MODERATELY_OPEN :: uint8_t
  DEFAULT_MAX_RUN_ON_TIME_M :: uint8_t
  MIN_VALVE_TARGET_C :: uint8_t
  filterLength :: nat
  ANTISEEK_VALVE_REOPEN_DELAY_M :: nat
  ANTISEEK_VALVE_RECLOSE_DELAY_M :: nat

text \<open>
  The \<^verbatim>\<open>constrain\<close> macro of the Arduino core, which the source uses without defining it:
  \<^verbatim>\<open>((amt)<(low)?(low):((amt)>(high)?(high):(amt)))\<close>. The macros \<^verbatim>\<open>min\<close> and
  \<^verbatim>\<open>max\<close> of the same core are \<open>min\<close> and \<open>max\<close> on \<open>int\<close>.
\<close>

definition constrain :: "int \<Rightarrow> int \<Rightarrow> int \<Rightarrow> int" where
  "constrain amt low high = (if amt < low then low else if amt > high then high else amt)"

text \<open>Conversion of an \<^verbatim>\<open>int\<close> to \<^verbatim>\<open>int8_t\<close>, read back as an \<^verbatim>\<open>int\<close>.\<close>

definition int8_t :: "int \<Rightarrow> int" where
  "int8_t x = sint (word_of_int x :: 8 word)"

subsection \<open>Input and state\<close>

text \<open>
  The fields are those the source reads and writes; their declarations are in the absent
  header. The percentages are \<^verbatim>\<open>uint8_t\<close> (the source copies them into \<^verbatim>\<open>uint8_t\<close>
  locals and returns them as such); the target temperature is an integer number of
  degrees; the countdowns and the cumulative movement are non-negative counters. The array
  \<^verbatim>\<open>prevRawTempC16[filterLength]\<close> is a list, most recent reading first; it has
  \<open>filterLength\<close> entries in a state of the program, and a tick keeps its length.
\<close>

record ModelledRadValveInputState =
  targetTempC :: int
  minPCOpen :: uint8_t
  maxPCOpen :: uint8_t
  widenDeadband :: bool
  glacial :: bool
  hasEcoBias :: bool
  inBakeMode :: bool
  fastResponseRequired :: bool
  refTempC16 :: int

record ModelledRadValveState =
  initialised :: bool
  isFiltering :: bool
  valveMoved :: bool
  cumulativeMovementPC :: nat
  valveTurndownCountdownM :: nat
  valveTurnupCountdownM :: nat
  prevRawTempC16 :: "int list"

subsection \<open>The mean filter\<close>

text \<open>
  \<^verbatim>\<open>for(int8_t i = N; --i >= 0; ) { sum += data[i]; }\<close>: the call \<open>sum_loop i data acc\<close>
  is the loop with \<open>i\<close> iterations left, adding \<open>data[i-1]\<close> down to \<open>data[0]\<close>
  (\<open>N\<close> is small: it fits the \<^verbatim>\<open>int8_t\<close> counter).
\<close>

fun sum_loop :: "nat \<Rightarrow> int list \<Rightarrow> int \<Rightarrow> int" where
  "sum_loop 0 data acc = acc"
| "sum_loop (Suc i) data acc = sum_loop i data (acc + data ! i)"

definition smallIntMean :: "nat \<Rightarrow> int list \<Rightarrow> int" where
  "smallIntMean N data = (sum_loop N data 0 + int (N div 2)) sdiv int N"

definition getSmoothedRecent :: "valve_params \<Rightarrow> ModelledRadValveState \<Rightarrow> int" where
  "getSmoothedRecent P s = smallIntMean (filterLength P) (prevRawTempC16 s)"

subsection \<open>Helpers of the state declared in the absent header\<close>

text \<open>
  Modelled from the spec: \<^verbatim>\<open>getRawDelta()\<close> is missing from the sources; it is "the most
  recent single-step raw delta" of the history, whose entries are most recent first.
\<close>

definition getRawDelta :: "ModelledRadValveState \<Rightarrow> int" where
  "getRawDelta s = prevRawTempC16 s ! 0 - prevRawTempC16 s ! 1"

text \<open>
  Modelled from the spec: \<^verbatim>\<open>getRawDelta(n)\<close> is missing from the sources; it is "the raw
  delta over the last n ticks". Reading beyond the history is undefined in C++: what is
  proved about this value assumes \<open>n < length (prevRawTempC16 s)\<close>.
\<close>

definition getRawDelta_n :: "ModelledRadValveState \<Rightarrow> nat \<Rightarrow> int" where
  "getRawDelta_n s n = prevRawTempC16 s ! 0 - prevRawTempC16 s ! n"

text \<open>
  Modelled from the spec: \<^verbatim>\<open>dontTurnup()\<close>, \<^verbatim>\<open>dontTurndown()\<close>, \<^verbatim>\<open>valveTurnup()\<close>
  and \<^verbatim>\<open>valveTurndown()\<close> are missing from the sources. The two queries "simply report
  whether the respective cooldown counter is still positive"; "closing arms the
  up-cooldown, opening arms the down-cooldown". The counter loaded when the valve is
  turned down is the one that defers turning it up, and conversely.
\<close>

definition dontTurnup :: "ModelledRadValveState \<Rightarrow> bool" where
  "dontTurnup s = (0 \<noteq> valveTurndownCountdownM s)"

definition dontTurndown :: "ModelledRadValveState \<Rightarrow> bool" where
  "dontTurndown s = (0 \<noteq> valveTurnupCountdownM s)"

definition valveTurndown :: "valve_params \<Rightarrow> ModelledRadValveState \<Rightarrow> ModelledRadValveState" where
  "valveTurndown P s = s\<lparr>valveTurndownCountdownM := ANTISEEK_VALVE_REOPEN_DELAY_M P\<rparr>"

definition valveTurnup :: "valve_params \<Rightarrow> ModelledRadValveState \<Rightarrow> ModelledRadValveState" where
  "valveTurnup P s = s\<lparr>valveTurnupCountdownM := ANTISEEK_VALVE_RECLOSE_DELAY_M P\<rparr>"

subsection \<open>The valve position\<close>

text \<open>Possibly-adjusted and/or smoothed temperature to use for targeting.\<close>

definition adjustedTempC16 :: "valve_params \<Rightarrow> ModelledRadValveState \<Rightarrow> ModelledRadValveInputState \<Rightarrow> int" where
  "adjustedTempC16 P s inputState =
     (if isFiltering s then getSmoothedRecent P s + refTempOffsetC16 else refTempC16 inputState)"

definition adjustedTempC :: "valve_params \<Rightarrow> ModelledRadValveState \<Rightarrow> ModelledRadValveInputState \<Rightarrow> int" where
  "adjustedTempC P s inputState = int8_t (drop_bit 4 (adjustedTempC16 P s inputState))"

text \<open>The window-open condition of the zone under the target (TODO-621).\<close>

definition windowOpen :: "valve_params \<Rightarrow> ModelledRadValveState \<Rightarrow> ModelledRadValveInputState \<Rightarrow> bool" where
  "windowOpen P s inputState =
     (hasEcoBias inputState \<and>
      adjustedTempC P s inputState > uint (MIN_VALVE_TARGET_C P) \<and>
      getRawDelta s < 0 \<and>
      getRawDelta_n s MIN_WINDOW_OPEN_TEMP_FALL_M \<le> - MIN_WINDOW_OPEN_TEMP_FALL_C16)"

text \<open>
  The response to an open window: try to turn down far enough to stop calling for heat
  immediately, else continue to close at a reasonable pace, else close; or at least avoid
  opening the valve when turning down is deferred.
\<close>

definition closeForOpenWindow :: "valve_params \<Rightarrow> ModelledRadValveState \<Rightarrow> uint8_t \<Rightarrow> uint8_t" where
  "closeForOpenWindow P s valvePCOpen =
     (if \<not> dontTurndown s then
        (if uint valvePCOpen \<ge> uint (DEFAULT_VALVE_PC_SAFER_OPEN P)
           then word_of_int (uint (DEFAULT_VALVE_PC_SAFER_OPEN P) - 1)
         else if uint valvePCOpen > TRV_MAX_SLEW_PC_PER_MIN
           then word_of_int (uint valvePCOpen - TRV_MAX_SLEW_PC_PER_MIN)
         else 0)
      else valvePCOpen)"

text \<open>
  Limit valve open slew: the body of \<^verbatim>\<open>if(valvePCOpen < inputState.maxPCOpen)\<close>.
\<close>

definition slewOpen :: "valve_params \<Rightarrow> ModelledRadValveState \<Rightarrow> uint8_t \<Rightarrow> ModelledRadValveInputState \<Rightarrow> uint8_t" where
  "slewOpen P s valvePCOpen inputState =
     (if dontTurnup s then valvePCOpen
      else
        let vBelowTarget = (adjustedTempC P s inputState < targetTempC inputState - 1);
            beGlacial = (glacial inputState \<or>
              (uint valvePCOpen \<ge> uint (minPCOpen inputState) \<and> widenDeadband inputState \<and>
               \<not> fastResponseRequired inputState \<and>
               ((hasEcoBias inputState \<and> \<not> vBelowTarget) \<or>
                (isFiltering s \<and> getRawDelta s > 0))))
        in if beGlacial then word_of_int (uint valvePCOpen + 1)
        else
          let cappedModeratelyOpen = (word_of_int (min (uint (maxPCOpen inputState))
                 (min 99 (uint (DEFAULT_VALVE_PC_MODERATELY_OPEN P) + TRV_SLEW_PC_PER_MIN_FAST))) :: uint8_t)
          in if uint valvePCOpen < uint cappedModeratelyOpen \<and>
                (fastResponseRequired inputState \<or> (vBelowTarget \<and> \<not> widenDeadband inputState))
             then cappedModeratelyOpen
          else
            let slewRate = (word_of_int
                   (if uint valvePCOpen > uint (DEFAULT_VALVE_PC_MODERATELY_OPEN P) \<or> \<not> widenDeadband inputState
                    then TRV_MAX_SLEW_PC_PER_MIN else TRV_SLEW_PC_PER_MIN_VFAST) :: uint8_t);
                minOpenFromCold = (word_of_int (max (uint slewRate) (uint (minPCOpen inputState))) :: uint8_t)
            in if uint valvePCOpen < uint minOpenFromCold then minOpenFromCold
               else word_of_int (min (uint (word_of_int (uint valvePCOpen + uint slewRate) :: uint8_t))
                                     (uint (maxPCOpen inputState))))"

text \<open>(Well) under temp target: open valve up.\<close>

definition underTarget :: "valve_params \<Rightarrow> ModelledRadValveState \<Rightarrow> uint8_t \<Rightarrow> ModelledRadValveInputState \<Rightarrow> uint8_t" where
  "underTarget P s valvePCOpen inputState =
     (if inBakeMode inputState then maxPCOpen inputState
      else if windowOpen P s inputState then closeForOpenWindow P s valvePCOpen
      else if uint valvePCOpen < uint (maxPCOpen inputState) then slewOpen P s valvePCOpen inputState
      else maxPCOpen inputState)"

text \<open>(Well) over temp target: close valve down.\<close>

definition overTarget :: "valve_params \<Rightarrow> ModelledRadValveState \<Rightarrow> uint8_t \<Rightarrow> ModelledRadValveInputState \<Rightarrow> uint8_t" where
  "overTarget P s valvePCOpen inputState =
     (if 0 \<noteq> valvePCOpen then
        (if dontTurndown s then valvePCOpen
         else
           let justOverTemp = (adjustedTempC P s inputState = targetTempC inputState + 1)
           in if justOverTemp \<and> widenDeadband inputState \<and> getRawDelta s < 0 then valvePCOpen
           else if justOverTemp \<and> isFiltering s then word_of_int (uint valvePCOpen - 1)
           else
             let minReallyOpen = minPCOpen inputState;
                 lingerThreshold = (word_of_int
                      (if uint minReallyOpen > 0 then uint minReallyOpen - 1 else 0) :: uint8_t)
             in if uint valvePCOpen < uint minReallyOpen then
                  (if uint (DEFAULT_MAX_RUN_ON_TIME_M P) < uint minReallyOpen \<and>
                      uint valvePCOpen < uint minReallyOpen - uint (DEFAULT_MAX_RUN_ON_TIME_M P)
                   then 0
                   else word_of_int (uint valvePCOpen - 1))
                else if (\<not> hasEcoBias inputState \<or> justOverTemp \<or> isFiltering s) \<and>
                        \<not> fastResponseRequired inputState \<and>
                        uint valvePCOpen > constrain (uint lingerThreshold + TRV_SLEW_PC_PER_MIN_FAST)
                                              TRV_SLEW_PC_PER_MIN_FAST (uint (maxPCOpen inputState))
                  then word_of_int (uint valvePCOpen - TRV_SLEW_PC_PER_MIN_FAST)
                else lingerThreshold)
      else 0)"

text \<open>
  Close to (or at) temp target: the least significant bits of the temperature give the
  valve percentage for proportional feedback.
\<close>

definition lsbits :: "valve_params \<Rightarrow> ModelledRadValveState \<Rightarrow> ModelledRadValveInputState \<Rightarrow> uint8_t" where
  "lsbits P s inputState = word_of_int (adjustedTempC16 P s inputState AND 15)"

definition ulpStep :: int where
  "ulpStep = 6"

definition targetPO :: "valve_params \<Rightarrow> ModelledRadValveState \<Rightarrow> ModelledRadValveInputState \<Rightarrow> uint8_t" where
  "targetPO P s inputState =
     (let tmp = (word_of_int (16 - uint (lsbits P s inputState)) :: uint8_t);
          targetPORaw = (word_of_int (uint tmp * ulpStep) :: uint8_t)
      in word_of_int (constrain (uint targetPORaw) (uint (minPCOpen inputState)) (uint (maxPCOpen inputState))))"

definition minAbsSlew :: "valve_params \<Rightarrow> ModelledRadValveInputState \<Rightarrow> uint8_t" where
  "minAbsSlew P inputState =
     (let realMinUlp = (word_of_int (1 + ulpStep) :: uint8_t);
          minAbsSlew0 = (word_of_int
             (if widenDeadband inputState
              then max (min (uint (DEFAULT_VALVE_PC_MODERATELY_OPEN P) sdiv 2)
                            (max TRV_MAX_SLEW_PC_PER_MIN (2 * TRV_MIN_SLEW_PC)))
                       (2 + TRV_MIN_SLEW_PC)
              else TRV_MIN_SLEW_PC) :: uint8_t)
      in word_of_int (max (uint realMinUlp) (uint minAbsSlew0)))"

text \<open>
  Slightly too open: currently open more than required, still below target at top of
  proportional range. \<open>slew\<close> is the \<^verbatim>\<open>uint8_t\<close> difference of the two percentages.
\<close>

definition slightlyTooOpen :: "valve_params \<Rightarrow> ModelledRadValveState \<Rightarrow> uint8_t \<Rightarrow> ModelledRadValveInputState \<Rightarrow> uint8_t" where
  "slightlyTooOpen P s valvePCOpen inputState =
     (let slew = (word_of_int (uint valvePCOpen - uint (targetPO P s inputState)) :: uint8_t)
      in if uint slew < uint (minAbsSlew P inputState) then valvePCOpen
      else if dontTurndown s then valvePCOpen
      else if getRawDelta s \<le> 0 then valvePCOpen
      else
        let beGlacial = (glacial inputState \<or>
              ((widenDeadband inputState \<or> isFiltering s) \<and>
               uint valvePCOpen \<le> uint (DEFAULT_VALVE_PC_MODERATELY_OPEN P)) \<or>
              uint (lsbits P s inputState) < 8)
        in if beGlacial then word_of_int (uint valvePCOpen - 1)
        else if uint slew > TRV_SLEW_PC_PER_MIN_FAST
          then word_of_int (uint valvePCOpen - TRV_SLEW_PC_PER_MIN_FAST)
        else targetPO P s inputState)"

text \<open>Slightly too closed: currently open less than required.\<close>

definition slightlyTooClosed :: "valve_params \<Rightarrow> ModelledRadValveState \<Rightarrow> uint8_t \<Rightarrow> ModelledRadValveInputState \<Rightarrow> uint8_t" where
  "slightlyTooClosed P s valvePCOpen inputState =
     (if inBakeMode inputState then maxPCOpen inputState
      else
        let slew = (word_of_int (uint (targetPO P s inputState) - uint valvePCOpen) :: uint8_t)
        in if uint slew < uint (minAbsSlew P inputState) then valvePCOpen
        else if dontTurnup s then valvePCOpen
        else
          let rise = getRawDelta s
          in if rise > 0 then valvePCOpen
          else if uint (lsbits P s inputState) \<ge> (if widenDeadband inputState then 8 else 12)
            then valvePCOpen
          else
            let beGlacial = (glacial inputState \<or> widenDeadband inputState \<or>
                  uint (lsbits P s inputState) \<ge> 8 \<or>
                  (uint (lsbits P s inputState) \<ge> 4 \<and>
                   uint valvePCOpen > uint (DEFAULT_VALVE_PC_MODERATELY_OPEN P)))
            in if beGlacial then word_of_int (uint valvePCOpen + 1)
            else
              let maxSlew = (word_of_int
                    (if \<not> hasEcoBias inputState then TRV_SLEW_PC_PER_MIN_FAST
                     else TRV_MAX_SLEW_PC_PER_MIN) :: uint8_t)
              in if uint slew > uint maxSlew
                   then word_of_int (uint valvePCOpen + uint maxSlew)
                 else targetPO P s inputState)"

text \<open>
  Close to (or at) temp target: no movement unless the proportional target differs from
  the current position; \<open>tooOpen\<close> iff the valve needs to be closed somewhat.
\<close>

definition atTarget :: "valve_params \<Rightarrow> ModelledRadValveState \<Rightarrow> uint8_t \<Rightarrow> ModelledRadValveInputState \<Rightarrow> uint8_t" where
  "atTarget P s valvePCOpen inputState =
     (if targetPO P s inputState \<noteq> valvePCOpen then
        (let tooOpen = (uint (targetPO P s inputState) < uint valvePCOpen)
         in if tooOpen then slightlyTooOpen P s valvePCOpen inputState
            else slightlyTooClosed P s valvePCOpen inputState)
      else valvePCOpen)"

definition computeRequiredTRVPercentOpen ::
    "valve_params \<Rightarrow> ModelledRadValveState \<Rightarrow> uint8_t \<Rightarrow> ModelledRadValveInputState \<Rightarrow> uint8_t" where
  "computeRequiredTRVPercentOpen P s valvePCOpen inputState =
     (if adjustedTempC P s inputState < targetTempC inputState
        then underTarget P s valvePCOpen inputState
      else if adjustedTempC P s inputState > targetTempC inputState
        then overTarget P s valvePCOpen inputState
      else atTarget P s valvePCOpen inputState)"

subsection \<open>The per-minute tick\<close>

text \<open>
  Fill the filter memory with the current room temperature:
  \<^verbatim>\<open>for(int i = filterLength; --i >= 0; ) { prevRawTempC16[i] = rawTempC16; }\<close>.
\<close>

fun fill_loop :: "nat \<Rightarrow> int \<Rightarrow> int list \<Rightarrow> int list" where
  "fill_loop 0 rawTempC16 xs = xs"
| "fill_loop (Suc i) rawTempC16 xs = fill_loop i rawTempC16 (xs[i := rawTempC16])"

text \<open>
  Shift in the latest (raw) temperature:
  \<^verbatim>\<open>for(int i = filterLength; --i > 0; ) { prevRawTempC16[i] = prevRawTempC16[i-1]; }\<close>.
\<close>

fun shift_loop :: "nat \<Rightarrow> int list \<Rightarrow> int list" where
  "shift_loop 0 xs = xs"
| "shift_loop (Suc i) xs = (if i > 0 then shift_loop i (xs[i := xs ! (i - 1)]) else xs)"

text \<open>
  Force filtering (back) on if any adjacent past readings are wildly different:
  \<^verbatim>\<open>for(int i = 1; i < filterLength; ++i) { if(abs(...) > MAX_TEMP_JUMP_C16) { isFiltering = true; break; } }\<close>.
  The result is the value the loop leaves in \<^verbatim>\<open>isFiltering\<close>, which is false before it.
\<close>

function forceFilterScan :: "nat \<Rightarrow> nat \<Rightarrow> int list \<Rightarrow> bool" where
  "forceFilterScan i n xs =
     (if i < n then
        (if \<bar>xs ! i - xs ! (i - 1)\<bar> > MAX_TEMP_JUMP_C16 then True
         else forceFilterScan (Suc i) n xs)
      else False)"
  by pat_completeness auto
termination
  by (relation "measure (\<lambda>(i, n, xs). n - i)") auto

declare forceFilterScan.simps [simp del]

definition fillFilterMemory :: "valve_params \<Rightarrow> int \<Rightarrow> ModelledRadValveState \<Rightarrow> ModelledRadValveState" where
  "fillFilterMemory P rawTempC16 s =
     (if \<not> initialised s
      then s\<lparr>prevRawTempC16 := fill_loop (filterLength P) rawTempC16 (prevRawTempC16 s),
             initialised := True\<rparr>
      else s)"

definition shiftIn :: "valve_params \<Rightarrow> int \<Rightarrow> ModelledRadValveState \<Rightarrow> ModelledRadValveState" where
  "shiftIn P rawTempC16 s =
     s\<lparr>prevRawTempC16 := (shift_loop (filterLength P) (prevRawTempC16 s))[0 := rawTempC16]\<rparr>"

definition exitFiltering :: "valve_params \<Rightarrow> int \<Rightarrow> ModelledRadValveState \<Rightarrow> ModelledRadValveState" where
  "exitFiltering P rawTempC16 s =
     (if isFiltering s \<and> \<bar>getSmoothedRecent P s - rawTempC16\<bar> \<le> MAX_TEMP_JUMP_C16
      then s\<lparr>isFiltering := False\<rparr> else s)"

definition forceFiltering :: "valve_params \<Rightarrow> ModelledRadValveState \<Rightarrow> ModelledRadValveState" where
  "forceFiltering P s =
     (if \<not> isFiltering s
      then s\<lparr>isFiltering := forceFilterScan 1 (filterLength P) (prevRawTempC16 s)\<rparr>
      else s)"

definition tickCountdowns :: "ModelledRadValveState \<Rightarrow> ModelledRadValveState" where
  "tickCountdowns s =
     (let s1 = (if valveTurndownCountdownM s > 0
                then s\<lparr>valveTurndownCountdownM := valveTurndownCountdownM s - 1\<rparr> else s)
      in if valveTurnupCountdownM s1 > 0
         then s1\<lparr>valveTurnupCountdownM := valveTurnupCountdownM s1 - 1\<rparr> else s1)"

text \<open>
  The first part of \<^verbatim>\<open>tick\<close>: the filter memory, the filtering flag and the countdown
  timers, up to the call of \<^verbatim>\<open>computeRequiredTRVPercentOpen\<close>.
\<close>

definition tick_update :: "valve_params \<Rightarrow> ModelledRadValveState \<Rightarrow> ModelledRadValveInputState \<Rightarrow> ModelledRadValveState" where
  "tick_update P s inputState =
     (let rawTempC16 = refTempC16 inputState - refTempOffsetC16
      in tickCountdowns (forceFiltering P (exitFiltering P rawTempC16
           (shiftIn P rawTempC16 (fillFilterMemory P rawTempC16 s)))))"

text \<open>
  \<^verbatim>\<open>tick\<close> updates the valve position passed by reference and the state: the model
  returns both.
\<close>

definition tick ::
    "valve_params \<Rightarrow> uint8_t \<Rightarrow> ModelledRadValveState \<Rightarrow> ModelledRadValveInputState
       \<Rightarrow> uint8_t \<times> ModelledRadValveState" where
  "tick P valvePCOpenRef s inputState =
     (let s1 = tick_update P s inputState;
          newValvePC = computeRequiredTRVPercentOpen P s1 valvePCOpenRef inputState;
          changed = (newValvePC \<noteq> valvePCOpenRef)
      in if changed then
           (if uint newValvePC > uint valvePCOpenRef
            then (newValvePC,
                  (valveTurnup P s1)\<lparr>cumulativeMovementPC :=
                      cumulativeMovementPC s1 + nat (uint newValvePC - uint valvePCOpenRef),
                    valveMoved := changed\<rparr>)
            else (newValvePC,
                  (valveTurndown P s1)\<lparr>cumulativeMovementPC :=
                      cumulativeMovementPC s1 + nat (uint valvePCOpenRef - uint newValvePC),
                    valveMoved := changed\<rparr>))
         else (valvePCOpenRef, s1\<lparr>valveMoved := changed\<rparr>))"

text \<open>A sequence of ticks, one for each input of the list.\<close>

fun ticks ::
    "valve_params \<Rightarrow> uint8_t \<Rightarrow> ModelledRadValveState \<Rightarrow> ModelledRadValveInputState list
       \<Rightarrow> uint8_t \<times> ModelledRadValveState" where
  "ticks P valvePCOpenRef s [] = (valvePCOpenRef, s)"
| "ticks P valvePCOpenRef s (inputState # rest) =
     (case tick P valvePCOpenRef s inputState of (v, s') \<Rightarrow> ticks P v s' rest)"

subsection \<open>What the specification calls the smoothed mean\<close>

text \<open>
  This definition follows the words of the specification, not the source: "arithmetic
  mean of all N entries, rounded to nearest integer with ties rounding up". It is what
  \<open>getSmoothedRecent\<close> is compared with.
\<close>

definition spec_smoothedMean :: "int list \<Rightarrow> int" where
  "spec_smoothedMean xs = \<lfloor>(of_int (sum_list xs) / of_nat (length xs) :: rat) + 1 / 2\<rfloor>"

subsection \<open>Concrete parameters, states and inputs\<close>

text \<open>
  An instance of the parameters, used to run the model: a history of sixteen readings
  (long enough for the ten-minute window-open test), anti-hunt delays of five minutes.
\<close>

definition example_params :: valve_params where
  "example_params =
     \<lparr>DEFAULT_VALVE_PC_SAFER_OPEN = 50, DEFAULT_VALVE_PC_MODERATELY_OPEN = 67,
      DEFAULT_MAX_RUN_ON_TIME_M = 5, MIN_VALVE_TARGET_C = 5, filterLength = 16,
      ANTISEEK_VALVE_REOPEN_DELAY_M = 5, ANTISEEK_VALVE_RECLOSE_DELAY_M = 5\<rparr>"

text \<open>The same with the history of four readings that the specification mentions.\<close>

definition example_params4 :: valve_params where
  "example_params4 = example_params\<lparr>filterLength := 4\<rparr>"

text \<open>A state in use, with history \<open>h\<close>, not filtering, both countdowns at zero.\<close>

definition settled_state :: "int list \<Rightarrow> ModelledRadValveState" where
  "settled_state h =
     \<lparr>initialised = True, isFiltering = False, valveMoved = False, cumulativeMovementPC = 0,
      valveTurndownCountdownM = 0, valveTurnupCountdownM = 0, prevRawTempC16 = h\<rparr>"

text \<open>
  Modelled from the spec: the constructor of the state is missing from the sources. A
  freshly constructed state is not initialised ("becomes true on first tick"), does not
  filter and has its counters at zero; the filter memory holds whatever \<open>h\<close> is, until
  the first tick fills it.
\<close>

definition fresh_state :: "int list \<Rightarrow> ModelledRadValveState" where
  "fresh_state h = (settled_state h)\<lparr>initialised := False\<rparr>"

text \<open>An input with target \<open>t\<close> and reference temperature \<open>r\<close>, every flag off.\<close>

definition example_input :: "int \<Rightarrow> int \<Rightarrow> ModelledRadValveInputState" where
  "example_input t r =
     \<lparr>targetTempC = t, minPCOpen = 10, maxPCOpen = 100, widenDeadband = False,
      glacial = False, hasEcoBias = False, inBakeMode = False,
      fastResponseRequired = False, refTempC16 = r\<rparr>"

text \<open>A history falling by two sixteenths a minute, from \<open>r + 2\<close> (most recent).\<close>

definition falling_history :: "int \<Rightarrow> int list" where
  "falling_history r = map (\<lambda>k. r + 2 * (int k + 1)) [0..<16]"

text \<open>A state in use that is filtering.\<close>

definition cooling_state :: "int list \<Rightarrow> ModelledRadValveState" where
  "cooling_state h = (settled_state h)\<lparr>isFiltering := True\<rparr>"

text \<open>
  The states of a valve opened to 5 percent at a steady 19 degrees: \<open>c\<close> is what is left
  of the countdown that defers turning down.
\<close>

definition heated_state :: "bool \<Rightarrow> nat \<Rightarrow> ModelledRadValveState" where
  "heated_state moved c =
     \<lparr>initialised = True, isFiltering = False, valveMoved = moved, cumulativeMovementPC = 5,
      valveTurndownCountdownM = 0, valveTurnupCountdownM = c, prevRawTempC16 = replicate 16 304\<rparr>"

text \<open>An input at 19 degrees with the valve allowed to open to 3 percent at most.\<close>

definition low_max_input :: "int \<Rightarrow> ModelledRadValveInputState" where
  "low_max_input t = (example_input t 312)\<lparr>minPCOpen := 0, maxPCOpen := 3\<rparr>"

section \<open>Properties\<close>

subsection \<open>The loops\<close>

lemma forceFilterScan_iff:
  "forceFilterScan i n xs \<longleftrightarrow>
     (\<exists>j. i \<le> j \<and> j < n \<and> \<bar>xs ! j - xs ! (j - 1)\<bar> > MAX_TEMP_JUMP_C16)"
proof (induction i n xs rule: forceFilterScan.induct)
  case (1 i n xs)
  show ?case
  proof (cases "i < n")
    case False
    then show ?thesis by (subst forceFilterScan.simps) auto
  next
    case True
    show ?thesis
    proof (cases "\<bar>xs ! i - xs ! (i - 1)\<bar> > MAX_TEMP_JUMP_C16")
      case jump: True
      with True show ?thesis by (subst forceFilterScan.simps) auto
    next
      case nojump: False
      have "forceFilterScan i n xs = forceFilterScan (Suc i) n xs"
        using True nojump by (subst forceFilterScan.simps) simp
      also have "\<dots> \<longleftrightarrow>
          (\<exists>j. Suc i \<le> j \<and> j < n \<and> \<bar>xs ! j - xs ! (j - 1)\<bar> > MAX_TEMP_JUMP_C16)"
        using 1 True nojump by simp
      also have "\<dots> \<longleftrightarrow>
          (\<exists>j. i \<le> j \<and> j < n \<and> \<bar>xs ! j - xs ! (j - 1)\<bar> > MAX_TEMP_JUMP_C16)"
        (is "?L \<longleftrightarrow> ?R")
      proof
        assume ?L
        then obtain j where
          "Suc i \<le> j" "j < n" "\<bar>xs ! j - xs ! (j - 1)\<bar> > MAX_TEMP_JUMP_C16"
          by blast
        then have "i \<le> j \<and> j < n \<and> \<bar>xs ! j - xs ! (j - 1)\<bar> > MAX_TEMP_JUMP_C16"
          by simp
        then show ?R ..
      next
        assume ?R
        then obtain j where
          j: "i \<le> j" "j < n" "\<bar>xs ! j - xs ! (j - 1)\<bar> > MAX_TEMP_JUMP_C16"
          by blast
        with nojump have "j \<noteq> i" by auto
        with j have "Suc i \<le> j \<and> j < n \<and> \<bar>xs ! j - xs ! (j - 1)\<bar> > MAX_TEMP_JUMP_C16"
          by simp
        then show ?L ..
      qed
      finally show ?thesis .
    qed
  qed
qed

lemma length_fill_loop: "length (fill_loop k r xs) = length xs"
  by (induction k arbitrary: xs) simp_all

lemma length_shift_loop: "length (shift_loop k xs) = length xs"
  by (induction k arbitrary: xs) simp_all

lemma nth_shift_loop:
  "k \<le> length xs \<Longrightarrow> shift_loop k xs ! j = (if 0 < j \<and> j < k then xs ! (j - 1) else xs ! j)"
proof (induction k arbitrary: xs)
  case 0
  then show ?case by simp
next
  case (Suc k)
  show ?case
  proof (cases "k > 0")
    case False
    then show ?thesis by simp
  next
    case True
    let ?ys = "xs[k := xs ! (k - 1)]"
    have "shift_loop (Suc k) xs ! j = shift_loop k ?ys ! j"
      using True by simp
    also have "\<dots> = (if 0 < j \<and> j < k then ?ys ! (j - 1) else ?ys ! j)"
      using Suc.prems by (intro Suc.IH) simp
    also have "\<dots> = (if 0 < j \<and> j < Suc k then xs ! (j - 1) else xs ! j)"
      using Suc.prems True by (auto simp add: nth_list_update less_Suc_eq)
    finally show ?thesis .
  qed
qed

lemma shifted_nth:
  assumes "length h = N" "j < N"
  shows "(shift_loop N h)[0 := r] ! j = (if j = 0 then r else h ! (j - 1))"
proof (cases "j = 0")
  case True
  then show ?thesis using assms by (simp add: length_shift_loop)
next
  case False
  then have "(shift_loop N h)[0 := r] ! j = shift_loop N h ! j"
    by simp
  also have "\<dots> = h ! (j - 1)"
    using assms False nth_shift_loop [of N h j] by simp
  finally show ?thesis using False by simp
qed

lemma shifted_calm:
  assumes len: "length h = N"
    and first: "h ! 0 = r"
    and calm: "\<And>j. 1 \<le> j \<Longrightarrow> j < N \<Longrightarrow> \<bar>h ! j - h ! (j - 1)\<bar> \<le> c"
    and c: "0 \<le> c"
    and j: "1 \<le> j" "j < N"
  shows "\<bar>(shift_loop N h)[0 := r] ! j - (shift_loop N h)[0 := r] ! (j - 1)\<bar> \<le> c"
proof -
  have a: "(shift_loop N h)[0 := r] ! j = h ! (j - 1)"
    using shifted_nth [OF len j(2), of r] j(1) by simp
  have "j - 1 < N"
    using j by simp
  then have b: "(shift_loop N h)[0 := r] ! (j - 1) = (if j - 1 = 0 then r else h ! (j - 1 - 1))"
    by (rule shifted_nth [OF len])
  show ?thesis
  proof (cases "j - 1 = 0")
    case True
    then show ?thesis unfolding a b using first c by simp
  next
    case False
    have "\<bar>h ! (j - 1) - h ! (j - 1 - 1)\<bar> \<le> c"
      using j False by (intro calm) auto
    then show ?thesis unfolding a b using False by simp
  qed
qed

subsection \<open>What each step of a tick leaves alone\<close>

lemma tickCountdowns_fields:
  "prevRawTempC16 (tickCountdowns s) = prevRawTempC16 s"
  "initialised (tickCountdowns s) = initialised s"
  "cumulativeMovementPC (tickCountdowns s) = cumulativeMovementPC s"
  by (simp_all add: tickCountdowns_def Let_def)

lemma forceFiltering_fields:
  "prevRawTempC16 (forceFiltering P s) = prevRawTempC16 s"
  "initialised (forceFiltering P s) = initialised s"
  "cumulativeMovementPC (forceFiltering P s) = cumulativeMovementPC s"
  by (simp_all add: forceFiltering_def)

lemma exitFiltering_fields:
  "prevRawTempC16 (exitFiltering P raw s) = prevRawTempC16 s"
  "initialised (exitFiltering P raw s) = initialised s"
  "cumulativeMovementPC (exitFiltering P raw s) = cumulativeMovementPC s"
  by (simp_all add: exitFiltering_def)

lemma shiftIn_fields:
  "prevRawTempC16 (shiftIn P raw s) = (shift_loop (filterLength P) (prevRawTempC16 s))[0 := raw]"
  "initialised (shiftIn P raw s) = initialised s"
  "isFiltering (shiftIn P raw s) = isFiltering s"
  "cumulativeMovementPC (shiftIn P raw s) = cumulativeMovementPC s"
  by (simp_all add: shiftIn_def)

lemma fillFilterMemory_fields:
  "length (prevRawTempC16 (fillFilterMemory P raw s)) = length (prevRawTempC16 s)"
  "initialised (fillFilterMemory P raw s)"
  "isFiltering (fillFilterMemory P raw s) = isFiltering s"
  "cumulativeMovementPC (fillFilterMemory P raw s) = cumulativeMovementPC s"
  "initialised s \<Longrightarrow> fillFilterMemory P raw s = s"
  by (simp_all add: fillFilterMemory_def length_fill_loop)

lemmas step_fields = tickCountdowns_fields forceFiltering_fields exitFiltering_fields
  shiftIn_fields fillFilterMemory_fields

lemma tick_update_fields:
  "cumulativeMovementPC (tick_update P s inputState) = cumulativeMovementPC s"
  "initialised (tick_update P s inputState)"
  "length (prevRawTempC16 (tick_update P s inputState)) = length (prevRawTempC16 s)"
  "prevRawTempC16 (tick_update P s inputState) =
     (shift_loop (filterLength P)
        (prevRawTempC16 (fillFilterMemory P (refTempC16 inputState - refTempOffsetC16) s)))
       [0 := refTempC16 inputState - refTempOffsetC16]"
  by (simp_all add: tick_update_def Let_def step_fields length_shift_loop)

subsection \<open>The filtering flag\<close>

lemma isFiltering_tickCountdowns: "isFiltering (tickCountdowns s) = isFiltering s"
  by (simp add: tickCountdowns_def Let_def)

lemma isFiltering_tick_update:
  "isFiltering (tick_update P s inputState) =
     (let raw = refTempC16 inputState - refTempOffsetC16;
          s1 = shiftIn P raw (fillFilterMemory P raw s)
      in (isFiltering s1 \<and> \<not> \<bar>getSmoothedRecent P s1 - raw\<bar> \<le> MAX_TEMP_JUMP_C16) \<or>
         forceFilterScan 1 (filterLength P) (prevRawTempC16 s1))"
  by (auto simp add: tick_update_def Let_def isFiltering_tickCountdowns
      forceFiltering_def exitFiltering_def)

subsection \<open>What a tick returns\<close>

lemma fst_tick:
  "fst (tick P valvePCOpenRef s inputState) =
     computeRequiredTRVPercentOpen P (tick_update P s inputState) valvePCOpenRef inputState"
  by (simp add: tick_def Let_def)

lemma tick_hold:
  assumes "computeRequiredTRVPercentOpen P (tick_update P s inputState) valvePCOpen inputState = valvePCOpen"
  shows "tick P valvePCOpen s inputState = (valvePCOpen, (tick_update P s inputState)\<lparr>valveMoved := False\<rparr>)"
  using assms by (simp add: tick_def Let_def)

lemma tick_countdowns:
  "uint (fst (tick P valvePCOpen s inputState)) > uint valvePCOpen \<Longrightarrow>
     valveTurnupCountdownM (snd (tick P valvePCOpen s inputState)) = ANTISEEK_VALVE_RECLOSE_DELAY_M P"
  "uint (fst (tick P valvePCOpen s inputState)) < uint valvePCOpen \<Longrightarrow>
     valveTurndownCountdownM (snd (tick P valvePCOpen s inputState)) = ANTISEEK_VALVE_REOPEN_DELAY_M P"
  by (auto simp add: tick_def Let_def valveTurnup_def valveTurndown_def)

subsection \<open>Bake mode\<close>

text \<open>
  Claim C2. With \<open>inBakeMode\<close> set, if the adjusted temperature is below the target, or at
  the target with the proportional target \<open>targetPO\<close> above the current percent, one tick
  sets the percent to \<open>maxPCOpen\<close>. The state and the other flags of the input are
  arbitrary: the countdowns, the filtering flag, \<open>hasEcoBias\<close>, \<open>widenDeadband\<close> and
  \<open>glacial\<close> play no part. The temperature is the one \<^verbatim>\<open>tick\<close> hands to
  \<^verbatim>\<open>computeRequiredTRVPercentOpen\<close>, after its update of the filter.
\<close>

theorem bake_override:
  assumes "inBakeMode inputState"
    and "adjustedTempC P (tick_update P s inputState) inputState < targetTempC inputState \<or>
         (adjustedTempC P (tick_update P s inputState) inputState = targetTempC inputState \<and>
          uint (targetPO P (tick_update P s inputState) inputState) > uint valvePCOpen)"
  shows "fst (tick P valvePCOpen s inputState) = maxPCOpen inputState"
  using assms
  by (auto simp add: fst_tick computeRequiredTRVPercentOpen_def underTarget_def atTarget_def
      slightlyTooClosed_def)

theorem bake_override_witness:
  "fst (tick example_params 10
          ((cooling_state (310 # replicate 15 300))\<lparr>valveTurndownCountdownM := 3\<rparr>)
          ((example_input 20 308)\<lparr>inBakeMode := True, hasEcoBias := True, glacial := True,
             widenDeadband := True\<rparr>)) = 100 \<and>
   fst (tick example_params 10
          ((settled_state (replicate 16 315))\<lparr>valveTurndownCountdownM := 3\<rparr>)
          ((example_input 20 323)\<lparr>inBakeMode := True\<rparr>)) = 100"
proof -
  let ?s = "(cooling_state (310 # replicate 15 300))\<lparr>valveTurndownCountdownM := 3\<rparr>"
  let ?i = "(example_input 20 308)\<lparr>inBakeMode := True, hasEcoBias := True, glacial := True,
             widenDeadband := True\<rparr>"
  let ?s' = "(settled_state (replicate 16 315))\<lparr>valveTurndownCountdownM := 3\<rparr>"
  let ?i' = "(example_input 20 323)\<lparr>inBakeMode := True\<rparr>"
  have bake: "inBakeMode ?i" "inBakeMode ?i'"
    by (simp_all add: example_input_def)
  have "adjustedTempC example_params (tick_update example_params ?s ?i) ?i < targetTempC ?i"
    by code_simp
  then have under: "fst (tick example_params 10 ?s ?i) = maxPCOpen ?i"
    using bake(1) by (intro bake_override) simp_all
  have "adjustedTempC example_params (tick_update example_params ?s' ?i') ?i' = targetTempC ?i' \<and>
        uint (targetPO example_params (tick_update example_params ?s' ?i') ?i') > uint (10 :: uint8_t)"
    by code_simp
  then have at: "fst (tick example_params 10 ?s' ?i') = maxPCOpen ?i'"
    using bake(2) by (intro bake_override) simp_all
  from under at show ?thesis
    by (simp add: example_input_def)
qed

text \<open>
  Claim C10. Bake mode comes before the window-open test: in bake mode and under the
  target, a tick returns \<open>maxPCOpen\<close> even when every condition of the window-open test
  holds.
\<close>

theorem bake_before_window_open:
  assumes "inBakeMode inputState"
    and "adjustedTempC P (tick_update P s inputState) inputState < targetTempC inputState"
    and "windowOpen P (tick_update P s inputState) inputState"
  shows "fst (tick P valvePCOpen s inputState) = maxPCOpen inputState"
  using assms
  by (simp add: fst_tick computeRequiredTRVPercentOpen_def underTarget_def)

theorem bake_before_window_open_witness:
  "fst (tick example_params 60 (settled_state (falling_history 280))
          ((example_input 20 288)\<lparr>hasEcoBias := True, inBakeMode := True\<rparr>)) = 100"
proof -
  let ?P = example_params
  let ?s = "settled_state (falling_history 280)"
  let ?i = "(example_input 20 288)\<lparr>hasEcoBias := True, inBakeMode := True\<rparr>"
  have "inBakeMode ?i"
    and "adjustedTempC ?P (tick_update ?P ?s ?i) ?i < targetTempC ?i"
    and "windowOpen ?P (tick_update ?P ?s ?i) ?i"
    by code_simp+
  then have "fst (tick ?P 60 ?s ?i) = maxPCOpen ?i"
    by (rule bake_before_window_open)
  then show ?thesis by (simp add: example_input_def)
qed

subsection \<open>The window-open response\<close>

text \<open>
  Claim C3. Under the target and out of bake mode, with an eco bias, the adjusted
  temperature above the frost-safety floor \<open>MIN_VALVE_TARGET_C\<close>, the last raw delta
  negative and a fall of at least one degree (16) over the last ten ticks: when turning
  down is not deferred, the tick returns the safer-open threshold minus one if the percent
  is at or above that threshold, else the percent less the maximum normal slew rate if
  the percent exceeds that rate, else 0; when turning down is deferred it returns the
  current percent.
\<close>

theorem window_open_fast_close:
  assumes "adjustedTempC P (tick_update P s inputState) inputState < targetTempC inputState"
    and "\<not> inBakeMode inputState"
    and "hasEcoBias inputState"
    and "adjustedTempC P (tick_update P s inputState) inputState > uint (MIN_VALVE_TARGET_C P)"
    and "getRawDelta (tick_update P s inputState) < 0"
    and "getRawDelta_n (tick_update P s inputState) MIN_WINDOW_OPEN_TEMP_FALL_M
           \<le> - MIN_WINDOW_OPEN_TEMP_FALL_C16"
  shows "fst (tick P valvePCOpen s inputState) =
     (if dontTurndown (tick_update P s inputState) then valvePCOpen
      else if uint valvePCOpen \<ge> uint (DEFAULT_VALVE_PC_SAFER_OPEN P)
        then DEFAULT_VALVE_PC_SAFER_OPEN P - 1
      else if uint valvePCOpen > TRV_MAX_SLEW_PC_PER_MIN
        then valvePCOpen - word_of_int TRV_MAX_SLEW_PC_PER_MIN
      else 0)"
  using assms
  by (simp add: fst_tick computeRequiredTRVPercentOpen_def underTarget_def windowOpen_def
      closeForOpenWindow_def)

theorem window_open_fast_close_witness:
  "fst (tick example_params 60 (settled_state (falling_history 280))
          ((example_input 20 288)\<lparr>hasEcoBias := True\<rparr>)) = 49 \<and>
   fst (tick example_params 30 (settled_state (falling_history 280))
          ((example_input 20 288)\<lparr>hasEcoBias := True\<rparr>)) = 25 \<and>
   fst (tick example_params 4 (settled_state (falling_history 280))
          ((example_input 20 288)\<lparr>hasEcoBias := True\<rparr>)) = 0 \<and>
   fst (tick example_params 60 ((settled_state (falling_history 280))\<lparr>valveTurnupCountdownM := 3\<rparr>)
          ((example_input 20 288)\<lparr>hasEcoBias := True\<rparr>)) = 60"
proof -
  let ?P = example_params
  let ?s = "settled_state (falling_history 280)"
  let ?s' = "(settled_state (falling_history 280))\<lparr>valveTurnupCountdownM := 3\<rparr>"
  let ?i = "(example_input 20 288)\<lparr>hasEcoBias := True\<rparr>"
  have flags: "\<not> inBakeMode ?i" "hasEcoBias ?i"
    by (simp_all add: example_input_def)
  have s: "adjustedTempC ?P (tick_update ?P ?s ?i) ?i < targetTempC ?i"
      "adjustedTempC ?P (tick_update ?P ?s ?i) ?i > uint (MIN_VALVE_TARGET_C ?P)"
      "getRawDelta (tick_update ?P ?s ?i) < 0"
      "getRawDelta_n (tick_update ?P ?s ?i) MIN_WINDOW_OPEN_TEMP_FALL_M \<le> - MIN_WINDOW_OPEN_TEMP_FALL_C16"
      "\<not> dontTurndown (tick_update ?P ?s ?i)"
    by code_simp+
  have s': "adjustedTempC ?P (tick_update ?P ?s' ?i) ?i < targetTempC ?i"
      "adjustedTempC ?P (tick_update ?P ?s' ?i) ?i > uint (MIN_VALVE_TARGET_C ?P)"
      "getRawDelta (tick_update ?P ?s' ?i) < 0"
      "getRawDelta_n (tick_update ?P ?s' ?i) MIN_WINDOW_OPEN_TEMP_FALL_M \<le> - MIN_WINDOW_OPEN_TEMP_FALL_C16"
      "dontTurndown (tick_update ?P ?s' ?i)"
    by code_simp+
  note free = window_open_fast_close [OF s(1) flags s(2) s(3) s(4)]
  note held = window_open_fast_close [OF s'(1) flags s'(2) s'(3) s'(4)]
  have "fst (tick ?P 60 ?s ?i) = 49"
    using free [of 60] s(5) by (simp add: example_params_def TRV_MAX_SLEW_PC_PER_MIN_def)
  moreover have "fst (tick ?P 30 ?s ?i) = 25"
    using free [of 30] s(5) by (simp add: example_params_def TRV_MAX_SLEW_PC_PER_MIN_def)
  moreover have "fst (tick ?P 4 ?s ?i) = 0"
    using free [of 4] s(5) by (simp add: example_params_def TRV_MAX_SLEW_PC_PER_MIN_def)
  moreover have "fst (tick ?P 60 ?s' ?i) = 60"
    using held [of 60] s'(5) by simp
  ultimately show ?thesis by simp
qed

subsection \<open>Under the target at or above the maximum\<close>

text \<open>
  Claim C9. Under the target, out of bake mode and with the window-open test not met, a
  percent at or above \<open>maxPCOpen\<close> becomes exactly \<open>maxPCOpen\<close>, whatever the
  countdowns: the witness has a percent of 80 above a maximum of 60 pulled down while
  turning down is deferred.
\<close>

theorem keep_at_max:
  assumes "adjustedTempC P (tick_update P s inputState) inputState < targetTempC inputState"
    and "\<not> inBakeMode inputState"
    and "\<not> windowOpen P (tick_update P s inputState) inputState"
    and "uint valvePCOpen \<ge> uint (maxPCOpen inputState)"
  shows "fst (tick P valvePCOpen s inputState) = maxPCOpen inputState"
  using assms
  by (simp add: fst_tick computeRequiredTRVPercentOpen_def underTarget_def)

theorem keep_at_max_witness:
  "fst (tick example_params 80 ((settled_state (replicate 16 300))\<lparr>valveTurnupCountdownM := 4\<rparr>)
          ((example_input 20 308)\<lparr>maxPCOpen := 60\<rparr>)) = 60 \<and>
   dontTurndown (tick_update example_params
          ((settled_state (replicate 16 300))\<lparr>valveTurnupCountdownM := 4\<rparr>)
          ((example_input 20 308)\<lparr>maxPCOpen := 60\<rparr>))"
proof -
  let ?P = example_params
  let ?s = "(settled_state (replicate 16 300))\<lparr>valveTurnupCountdownM := 4\<rparr>"
  let ?i = "(example_input 20 308)\<lparr>maxPCOpen := 60\<rparr>"
  have armed: "dontTurndown (tick_update ?P ?s ?i)"
    by code_simp
  have "adjustedTempC ?P (tick_update ?P ?s ?i) ?i < targetTempC ?i"
    and "\<not> inBakeMode ?i"
    and "\<not> windowOpen ?P (tick_update ?P ?s ?i) ?i"
    and "uint (80 :: uint8_t) \<ge> uint (maxPCOpen ?i)"
    by code_simp+
  then have "fst (tick ?P 80 ?s ?i) = maxPCOpen ?i"
    by (rule keep_at_max)
  with armed show ?thesis by (simp add: example_input_def)
qed

subsection \<open>Just over the target with a wide deadband\<close>

text \<open>
  Claim C8. Over the target with the valve not shut and turning down not deferred: when
  the adjusted temperature is exactly one degree above the target, \<open>widenDeadband\<close> is
  set and the last raw delta is negative, the tick leaves the percent as it is.
\<close>

theorem just_over_hold:
  assumes "adjustedTempC P (tick_update P s inputState) inputState > targetTempC inputState"
    and "valvePCOpen \<noteq> 0"
    and "\<not> dontTurndown (tick_update P s inputState)"
    and "adjustedTempC P (tick_update P s inputState) inputState = targetTempC inputState + 1"
    and "widenDeadband inputState"
    and "getRawDelta (tick_update P s inputState) < 0"
  shows "fst (tick P valvePCOpen s inputState) = valvePCOpen"
  using assms
  by (simp add: fst_tick computeRequiredTRVPercentOpen_def overTarget_def Let_def)

theorem just_over_hold_witness:
  "fst (tick example_params 40 (settled_state (replicate 16 334))
          ((example_input 20 340)\<lparr>widenDeadband := True\<rparr>)) = 40"
proof -
  let ?P = example_params
  let ?s = "settled_state (replicate 16 334)"
  let ?i = "(example_input 20 340)\<lparr>widenDeadband := True\<rparr>"
  have "adjustedTempC ?P (tick_update ?P ?s ?i) ?i > targetTempC ?i"
    and "(40 :: uint8_t) \<noteq> 0"
    and "\<not> dontTurndown (tick_update ?P ?s ?i)"
    and "adjustedTempC ?P (tick_update ?P ?s ?i) ?i = targetTempC ?i + 1"
    and "widenDeadband ?i"
    and "getRawDelta (tick_update ?P ?s ?i) < 0"
    by code_simp+
  then show ?thesis by (rule just_over_hold)
qed

subsection \<open>Filter hysteresis\<close>

text \<open>
  Claim C5. Let \<open>s1\<close> be the state after the history shift of a tick and \<open>s2\<close> the state
  \<^verbatim>\<open>tick\<close> hands to \<^verbatim>\<open>computeRequiredTRVPercentOpen\<close>. If filtering is off and two
  adjacent entries of the history differ by more than 3, filtering is on in \<open>s2\<close>. If
  filtering was on and is off in \<open>s2\<close>, the newest raw sample is within 3 of the smoothed
  mean. The exit check comes first: filtering is on in \<open>s2\<close> exactly when it was on and
  the sample is not near the mean, or there is a jump. This holds for every length of the
  history; the witness has four entries.
\<close>

theorem filter_hysteresis:
  "let raw = refTempC16 inputState - refTempOffsetC16;
       s1 = shiftIn P raw (fillFilterMemory P raw s);
       s2 = tick_update P s inputState;
       jump = (\<exists>i. 1 \<le> i \<and> i < filterLength P \<and>
                 \<bar>prevRawTempC16 s1 ! i - prevRawTempC16 s1 ! (i - 1)\<bar> > 3);
       near = (\<bar>getSmoothedRecent P s1 - raw\<bar> \<le> 3)
   in (\<not> isFiltering s1 \<and> jump \<longrightarrow> isFiltering s2) \<and>
      (isFiltering s1 \<and> \<not> isFiltering s2 \<longrightarrow> near) \<and>
      (isFiltering s2 \<longleftrightarrow> (isFiltering s1 \<and> \<not> near) \<or> jump)"
  unfolding Let_def isFiltering_tick_update forceFilterScan_iff MAX_TEMP_JUMP_C16_def
  by blast

theorem filter_hysteresis_witness:
  "isFiltering (tick_update example_params4 (settled_state [300, 300, 300, 300]) (example_input 20 318)) \<and>
   \<bar>getSmoothedRecent example_params4
       (shiftIn example_params4 300 (cooling_state [300, 300, 300, 310])) - 300\<bar> \<le> 3"
proof -
  let ?P = example_params4
  let ?s = "settled_state [300, 300, 300, 300]"
  let ?i = "example_input 20 318"
  let ?raw = "refTempC16 ?i - refTempOffsetC16"
  let ?s1 = "shiftIn ?P ?raw (fillFilterMemory ?P ?raw ?s)"
  have off: "\<not> isFiltering ?s1"
    by code_simp
  have "1 \<le> (1::nat) \<and> 1 < filterLength ?P \<and>
        \<bar>prevRawTempC16 ?s1 ! 1 - prevRawTempC16 ?s1 ! (1 - 1)\<bar> > 3"
    by code_simp
  then have jump: "\<exists>i. 1 \<le> i \<and> i < filterLength ?P \<and>
        \<bar>prevRawTempC16 ?s1 ! i - prevRawTempC16 ?s1 ! (i - 1)\<bar> > 3" ..
  have "\<not> isFiltering ?s1 \<and> (\<exists>i. 1 \<le> i \<and> i < filterLength ?P \<and>
        \<bar>prevRawTempC16 ?s1 ! i - prevRawTempC16 ?s1 ! (i - 1)\<bar> > 3)
      \<longrightarrow> isFiltering (tick_update ?P ?s ?i)"
    using filter_hysteresis [of ?i ?P ?s] unfolding Let_def by (rule conjunct1)
  with off jump have on: "isFiltering (tick_update ?P ?s ?i)"
    by blast
  let ?t = "cooling_state [300, 300, 300, 310]"
  let ?j = "example_input 20 308"
  let ?raw' = "refTempC16 ?j - refTempOffsetC16"
  let ?t1 = "shiftIn ?P ?raw' (fillFilterMemory ?P ?raw' ?t)"
  have was_on: "isFiltering ?t1" and now_off: "\<not> isFiltering (tick_update ?P ?t ?j)"
    by code_simp+
  have "isFiltering ?t1 \<and> \<not> isFiltering (tick_update ?P ?t ?j)
      \<longrightarrow> \<bar>getSmoothedRecent ?P ?t1 - ?raw'\<bar> \<le> 3"
    using filter_hysteresis [of ?j ?P ?t] unfolding Let_def by (rule conjunct1 [OF conjunct2])
  with was_on now_off have "\<bar>getSmoothedRecent ?P ?t1 - ?raw'\<bar> \<le> 3"
    by blast
  moreover have "?raw' = 300" "fillFilterMemory ?P 300 ?t = ?t"
    by code_simp+
  ultimately have "\<bar>getSmoothedRecent ?P (shiftIn ?P 300 ?t) - 300\<bar> \<le> 3"
    by simp
  with on show ?thesis by simp
qed

subsection \<open>The smoothed mean\<close>

text \<open>
  The loop adds up the first \<open>N\<close> entries; while sum + N/2 is not negative the result is
  the mean rounded to the nearest integer, ties rounding up.
\<close>

lemma sum_loop_take:
  "k \<le> length xs \<Longrightarrow> sum_loop k xs acc = acc + sum_list (take k xs)"
proof (induction k arbitrary: acc)
  case 0
  then show ?case by simp
next
  case (Suc k)
  then have "take (Suc k) xs = take k xs @ [xs ! k]"
    by (simp add: take_Suc_conv_app_nth)
  with Suc show ?case by simp
qed

lemma rounded_mean_int:
  assumes "0 < n"
  shows "\<lfloor>(of_int a / of_nat n :: rat) + 1 / 2\<rfloor> = (a + int (n div 2)) div int n"
proof -
  have "(of_int a / of_nat n :: rat) + 1 / 2 = of_int (2 * a + int n) / of_int (2 * int n)"
    using assms by (simp add: field_simps)
  then have "\<lfloor>(of_int a / of_nat n :: rat) + 1 / 2\<rfloor> = (2 * a + int n) div (2 * int n)"
    by (simp only: floor_divide_of_int_eq)
  also have "\<dots> = ((2 * a + int n) div 2) div int n"
    by (rule zdiv_zmult2_eq) simp
  also have "(2 * a + int n) div 2 = a + int (n div 2)"
    by (simp add: zdiv_int)
  finally show ?thesis .
qed

lemma smallIntMean_rounds_when_not_negative:
  assumes "length xs = N" "0 < N" "0 \<le> sum_list xs + int (N div 2)"
  shows "smallIntMean N xs = spec_smoothedMean xs"
proof -
  have "sum_loop N xs 0 = sum_list xs"
    using assms(1) by (simp add: sum_loop_take)
  moreover have "(sum_list xs + int (N div 2)) sdiv int N = (sum_list xs + int (N div 2)) div int N"
    using assms(2,3) by (simp add: signed_divide_int_def sgn_if)
  ultimately show ?thesis
    using assms(1,2) by (simp add: smallIntMean_def spec_smoothedMean_def rounded_mean_int)
qed

text \<open>
  Claim C6. \<open>getSmoothedRecent\<close> computes (sum + N/2) / N with the division of C++, which
  truncates towards zero. For a history of four readings of -16 (a steady -1 degree) the
  sum is -64 and (-64 + 2) / 4 is -15, while the mean of the readings, rounded to the
  nearest integer with ties rounding up, is -16: the filter does not return the mean of a
  constant history below zero. For the readings -15, -15, -15 and -16 the mean is -15.25
  and the result is -14, more than one away from it.
\<close>

theorem smoothed_mean_of_negative_readings:
  "getSmoothedRecent example_params4 (settled_state [-16, -16, -16, -16]) = -15 \<and>
   spec_smoothedMean [-16, -16, -16, -16] = -16 \<and>
   getSmoothedRecent example_params4 (settled_state [-15, -15, -15, -16]) = -14 \<and>
   spec_smoothedMean [-15, -15, -15, -16] = -15"
proof (intro conjI)
  show "getSmoothedRecent example_params4 (settled_state [-16, -16, -16, -16]) = -15"
    by code_simp
  show "spec_smoothedMean [-16, -16, -16, -16] = -16"
    by (simp add: spec_smoothedMean_def floor_eq_iff)
  show "getSmoothedRecent example_params4 (settled_state [-15, -15, -15, -16]) = -14"
    by code_simp
  show "spec_smoothedMean [-15, -15, -15, -16] = -15"
    by (simp add: spec_smoothedMean_def floor_eq_iff)
qed

subsection \<open>Equilibrium in the proportional band\<close>

lemma at_equilibrium:
  assumes "adjustedTempC P s inputState = targetTempC inputState"
    and "targetPO P s inputState = valvePCOpen"
  shows "computeRequiredTRVPercentOpen P s valvePCOpen inputState = valvePCOpen"
  using assms by (simp add: computeRequiredTRVPercentOpen_def atTarget_def)

lemma unfiltered_same:
  assumes "\<not> isFiltering a" "\<not> isFiltering b"
  shows "adjustedTempC P a inputState = adjustedTempC P b inputState"
    and "targetPO P a inputState = targetPO P b inputState"
  using assms by (simp_all add: adjustedTempC_def adjustedTempC16_def targetPO_def lsbits_def)

lemma stays_unfiltered:
  assumes len: "length (prevRawTempC16 s) = filterLength P"
    and nf: "\<not> isFiltering (tick_update P s inputState)"
  shows "\<not> isFiltering (tick_update P ((tick_update P s inputState)\<lparr>valveMoved := b\<rparr>) inputState)"
proof -
  let ?N = "filterLength P"
  let ?raw = "refTempC16 inputState - refTempOffsetC16"
  let ?s1 = "tick_update P s inputState"
  let ?s' = "?s1\<lparr>valveMoved := b\<rparr>"
  obtain h1 where h1: "prevRawTempC16 ?s1 = h1"
    by simp
  have len1: "length h1 = ?N"
    using len h1 tick_update_fields(3) [of P s inputState] by simp
  have first: "h1 ! 0 = ?raw" if "0 < ?N"
    using that len h1 [symmetric]
    by (simp add: tick_update_fields(4) length_shift_loop step_fields)
  have "prevRawTempC16 (shiftIn P ?raw (fillFilterMemory P ?raw s)) = h1"
    using h1 by (simp add: tick_update_fields(4) step_fields)
  then have "\<not> forceFilterScan 1 ?N h1"
    using nf by (simp add: isFiltering_tick_update Let_def)
  then have none: "\<not> (1 \<le> j \<and> j < ?N \<and> \<bar>h1 ! j - h1 ! (j - 1)\<bar> > MAX_TEMP_JUMP_C16)" for j
    unfolding forceFilterScan_iff by (rule not_ex [THEN iffD1, THEN spec])
  have calm: "\<bar>h1 ! j - h1 ! (j - 1)\<bar> \<le> MAX_TEMP_JUMP_C16" if "1 \<le> j" "j < ?N" for j
    using none [of j] that by linarith
  have scan2: "\<not> forceFilterScan 1 ?N ((shift_loop ?N h1)[0 := ?raw])"
    unfolding forceFilterScan_iff
  proof
    assume "\<exists>j. 1 \<le> j \<and> j < ?N \<and>
      \<bar>(shift_loop ?N h1)[0 := ?raw] ! j - (shift_loop ?N h1)[0 := ?raw] ! (j - 1)\<bar> > MAX_TEMP_JUMP_C16"
    then obtain j where j: "1 \<le> j" "j < ?N"
      and jump: "\<bar>(shift_loop ?N h1)[0 := ?raw] ! j - (shift_loop ?N h1)[0 := ?raw] ! (j - 1)\<bar>
         > MAX_TEMP_JUMP_C16"
      by blast
    from j have "h1 ! 0 = ?raw"
      by (intro first) simp
    then have "\<bar>(shift_loop ?N h1)[0 := ?raw] ! j - (shift_loop ?N h1)[0 := ?raw] ! (j - 1)\<bar>
         \<le> MAX_TEMP_JUMP_C16"
      using len1 calm j by (intro shifted_calm) (simp_all add: MAX_TEMP_JUMP_C16_def)
    with jump show False by linarith
  qed
  have init: "fillFilterMemory P ?raw ?s' = ?s'"
    by (rule fillFilterMemory_fields) (simp add: tick_update_fields)
  have "prevRawTempC16 (shiftIn P ?raw ?s') = (shift_loop ?N h1)[0 := ?raw]"
    using h1 by (simp add: step_fields)
  moreover have "\<not> isFiltering (shiftIn P ?raw ?s')"
    using nf by (simp add: step_fields)
  ultimately show ?thesis
    using scan2 by (simp add: isFiltering_tick_update Let_def init)
qed

lemma equilibrium_ticks:
  assumes "length (prevRawTempC16 s) = filterLength P"
    and "\<not> isFiltering (tick_update P s inputState)"
    and "adjustedTempC P (tick_update P s inputState) inputState = targetTempC inputState"
    and "targetPO P (tick_update P s inputState) inputState = valvePCOpen"
  shows "ticks P valvePCOpen s (replicate (Suc n) inputState) =
           (valvePCOpen, snd (ticks P valvePCOpen s (replicate (Suc n) inputState))) \<and>
         \<not> valveMoved (snd (ticks P valvePCOpen s (replicate (Suc n) inputState))) \<and>
         cumulativeMovementPC (snd (ticks P valvePCOpen s (replicate (Suc n) inputState))) =
           cumulativeMovementPC s"
  using assms
proof (induction n arbitrary: s)
  case 0
  have "tick P valvePCOpen s inputState =
      (valvePCOpen, (tick_update P s inputState)\<lparr>valveMoved := False\<rparr>)"
    using "0.prems"(3,4) by (intro tick_hold at_equilibrium)
  then show ?case
    by (simp add: tick_update_fields)
next
  case (Suc n)
  let ?s1 = "tick_update P s inputState"
  let ?s' = "?s1\<lparr>valveMoved := False\<rparr>"
  have step: "tick P valvePCOpen s inputState = (valvePCOpen, ?s')"
    using Suc.prems(3,4) by (intro tick_hold at_equilibrium)
  have nf': "\<not> isFiltering (tick_update P ?s' inputState)"
    using Suc.prems(1,2) by (rule stays_unfiltered)
  have len': "length (prevRawTempC16 ?s') = filterLength P"
    using Suc.prems(1) tick_update_fields(3) [of P s inputState] by simp
  have adj': "adjustedTempC P (tick_update P ?s' inputState) inputState = targetTempC inputState"
    using unfiltered_same(1) [OF nf' Suc.prems(2)] Suc.prems(3) by simp
  have tpo': "targetPO P (tick_update P ?s' inputState) inputState = valvePCOpen"
    using unfiltered_same(2) [OF nf' Suc.prems(2)] Suc.prems(4) by simp
  have unfold: "ticks P valvePCOpen s (replicate (Suc (Suc n)) inputState) =
      ticks P valvePCOpen ?s' (replicate (Suc n) inputState)"
    using step by simp
  have "cumulativeMovementPC ?s' = cumulativeMovementPC s"
    by (simp add: tick_update_fields)
  with Suc.IH [OF len' nf' adj' tpo'] show ?case
    unfolding unfold by simp
qed

text \<open>
  Claim C7, as amended. When the adjusted temperature is at the target and the proportional
  target \<open>targetPO\<close> equals the current percent, a tick leaves the percent as it is,
  reports no movement and leaves the cumulative movement as it is. When moreover that tick
  leaves filtering off (and the history has its \<open>filterLength\<close> entries), the same holds
  after every further tick with the same input. With filtering on it need not: the smoothed
  temperature moves as the history fills with the new reading.
\<close>

theorem equilibrium_no_movement:
  assumes "adjustedTempC P (tick_update P s inputState) inputState = targetTempC inputState"
    and "targetPO P (tick_update P s inputState) inputState = valvePCOpen"
  shows "fst (tick P valvePCOpen s inputState) = valvePCOpen \<and>
         \<not> valveMoved (snd (tick P valvePCOpen s inputState)) \<and>
         cumulativeMovementPC (snd (tick P valvePCOpen s inputState)) = cumulativeMovementPC s \<and>
         (\<not> isFiltering (tick_update P s inputState) \<and>
          length (prevRawTempC16 s) = filterLength P \<longrightarrow>
          (\<forall>n. fst (ticks P valvePCOpen s (replicate (Suc n) inputState)) = valvePCOpen \<and>
               \<not> valveMoved (snd (ticks P valvePCOpen s (replicate (Suc n) inputState))) \<and>
               cumulativeMovementPC (snd (ticks P valvePCOpen s (replicate (Suc n) inputState))) =
                 cumulativeMovementPC s))"
proof -
  have "tick P valvePCOpen s inputState =
      (valvePCOpen, (tick_update P s inputState)\<lparr>valveMoved := False\<rparr>)"
    using assms by (intro tick_hold at_equilibrium)
  then have one: "fst (tick P valvePCOpen s inputState) = valvePCOpen \<and>
         \<not> valveMoved (snd (tick P valvePCOpen s inputState)) \<and>
         cumulativeMovementPC (snd (tick P valvePCOpen s inputState)) = cumulativeMovementPC s"
    by (simp add: tick_update_fields)
  have many: "fst (ticks P valvePCOpen s (replicate (Suc n) inputState)) = valvePCOpen \<and>
               \<not> valveMoved (snd (ticks P valvePCOpen s (replicate (Suc n) inputState))) \<and>
               cumulativeMovementPC (snd (ticks P valvePCOpen s (replicate (Suc n) inputState))) =
                 cumulativeMovementPC s"
    if "\<not> isFiltering (tick_update P s inputState)" "length (prevRawTempC16 s) = filterLength P"
    for n
    using equilibrium_ticks [OF that(2) that(1) assms, of n] by (metis fst_conv)
  from one many show ?thesis by blast
qed

theorem equilibrium_no_movement_witness:
  "fst (ticks example_params 60 (settled_state (replicate 16 318))
          (replicate (Suc 4) (example_input 20 326))) = 60 \<and>
   cumulativeMovementPC (snd (ticks example_params 60 (settled_state (replicate 16 318))
          (replicate (Suc 4) (example_input 20 326)))) = 0"
proof -
  let ?P = example_params and ?s = "settled_state (replicate 16 318)"
  let ?i = "example_input 20 326"
  have a: "adjustedTempC ?P (tick_update ?P ?s ?i) ?i = targetTempC ?i"
    and b: "targetPO ?P (tick_update ?P ?s ?i) ?i = 60"
    and c: "\<not> isFiltering (tick_update ?P ?s ?i) \<and> length (prevRawTempC16 ?s) = filterLength ?P"
    and d: "cumulativeMovementPC ?s = 0"
    by code_simp+
  have "\<forall>n. fst (ticks ?P 60 ?s (replicate (Suc n) ?i)) = 60 \<and>
         \<not> valveMoved (snd (ticks ?P 60 ?s (replicate (Suc n) ?i))) \<and>
         cumulativeMovementPC (snd (ticks ?P 60 ?s (replicate (Suc n) ?i))) = cumulativeMovementPC ?s"
    using equilibrium_no_movement [OF a b] c by blast
  then have "fst (ticks ?P 60 ?s (replicate (Suc 4) ?i)) = 60 \<and>
         \<not> valveMoved (snd (ticks ?P 60 ?s (replicate (Suc 4) ?i))) \<and>
         cumulativeMovementPC (snd (ticks ?P 60 ?s (replicate (Suc 4) ?i))) = cumulativeMovementPC ?s"
    by (rule spec)
  then show ?thesis
    unfolding d by blast
qed

text \<open>
  Claim C7 as stated fails while filtering: the history is at 330 and the input is steady
  at a raw 280. The first tick turns filtering on; the smoothed temperature is at the
  target and \<open>targetPO\<close> is the current 60 percent, so nothing moves. At the second tick,
  with the same input, the smoothed temperature has fallen under the target and the valve
  opens to 65 percent.
\<close>

lemma drift_step1:
  "tick example_params4 60 (settled_state [330, 330, 330, 330]) (example_input 20 288) =
     (60, cooling_state [280, 330, 330, 330])"
  by code_simp

lemma drift_step2:
  "fst (tick example_params4 60 (cooling_state [280, 330, 330, 330]) (example_input 20 288)) = 65"
  by code_simp

theorem equilibrium_counterexample:
  "adjustedTempC example_params4
      (tick_update example_params4 (settled_state [330, 330, 330, 330]) (example_input 20 288))
      (example_input 20 288) = targetTempC (example_input 20 288) \<and>
   targetPO example_params4
      (tick_update example_params4 (settled_state [330, 330, 330, 330]) (example_input 20 288))
      (example_input 20 288) = 60 \<and>
   fst (ticks example_params4 60 (settled_state [330, 330, 330, 330])
      [example_input 20 288, example_input 20 288]) = 65"
proof (intro conjI)
  show "fst (ticks example_params4 60 (settled_state [330, 330, 330, 330])
      [example_input 20 288, example_input 20 288]) = 65"
    apply (simp only: ticks.simps drift_step1 prod.case)
    apply (simp only: case_prod_beta fst_conv drift_step2)
    done
qed code_simp+

subsection \<open>Anti-hunt\<close>

lemmas slew_defs = TRV_MAX_SLEW_PC_PER_MIN_def TRV_SLEW_PC_PER_MIN_VFAST_def
  TRV_SLEW_PC_PER_MIN_FAST_def TRV_MIN_SLEW_PC_def

lemma u8: "0 \<le> x \<Longrightarrow> x < 256 \<Longrightarrow> uint (word_of_int x :: 8 word) = x"
  by (simp add: uint_word_of_int take_bit_int_eq_self)

lemma u8_lt: "uint (w :: 8 word) < 256"
  using uint_lt2p [of w] by simp

lemma leaf_plus:
  assumes "0 \<le> x" "0 \<le> k" "x + k < 256"
  shows "x \<le> uint (word_of_int (x + k) :: 8 word)"
proof -
  have "uint (word_of_int (x + k) :: 8 word) = x + k"
    using assms by (intro u8) auto
  with assms show ?thesis by linarith
qed

lemma leaf_minus:
  assumes "0 \<le> k" "k \<le> x" "x < 256"
  shows "uint (word_of_int (x - k) :: 8 word) \<le> x"
proof -
  have "uint (word_of_int (x - k) :: 8 word) = x - k"
    using assms by (intro u8) auto
  with assms show ?thesis by linarith
qed

lemma leaf_slew:
  assumes "0 \<le> x" "x < m" "m \<le> 100" "0 \<le> k" "k \<le> 20"
  shows "x \<le> uint (word_of_int (min (uint (word_of_int (x + k) :: 8 word)) m) :: 8 word)"
proof -
  have 1: "uint (word_of_int (x + k) :: 8 word) = x + k"
    using assms by (intro u8) auto
  have 2: "uint (word_of_int (min (x + k) m) :: 8 word) = min (x + k) m"
    using assms by (intro u8) auto
  show ?thesis unfolding 1 2 using assms by linarith
qed

lemma countdown_irrelevant:
  "adjustedTempC P (s\<lparr>valveTurnupCountdownM := c\<rparr>) inputState = adjustedTempC P s inputState"
  "adjustedTempC P (s\<lparr>valveTurndownCountdownM := c\<rparr>) inputState = adjustedTempC P s inputState"
  "windowOpen P (s\<lparr>valveTurnupCountdownM := c\<rparr>) inputState = windowOpen P s inputState"
  "windowOpen P (s\<lparr>valveTurndownCountdownM := c\<rparr>) inputState = windowOpen P s inputState"
  "lsbits P (s\<lparr>valveTurnupCountdownM := c\<rparr>) inputState = lsbits P s inputState"
  "lsbits P (s\<lparr>valveTurndownCountdownM := c\<rparr>) inputState = lsbits P s inputState"
  "targetPO P (s\<lparr>valveTurnupCountdownM := c\<rparr>) inputState = targetPO P s inputState"
  "targetPO P (s\<lparr>valveTurndownCountdownM := c\<rparr>) inputState = targetPO P s inputState"
  "getRawDelta (s\<lparr>valveTurnupCountdownM := c\<rparr>) = getRawDelta s"
  "getRawDelta (s\<lparr>valveTurndownCountdownM := c\<rparr>) = getRawDelta s"
  "dontTurnup (s\<lparr>valveTurnupCountdownM := c\<rparr>) = dontTurnup s"
  "dontTurndown (s\<lparr>valveTurndownCountdownM := c\<rparr>) = dontTurndown s"
  "dontTurndown (s\<lparr>valveTurnupCountdownM := 0\<rparr>) = False"
  "dontTurnup (s\<lparr>valveTurndownCountdownM := 0\<rparr>) = False"
  by (simp_all add: adjustedTempC_def adjustedTempC16_def getSmoothedRecent_def windowOpen_def
      lsbits_def targetPO_def getRawDelta_def getRawDelta_n_def dontTurnup_def dontTurndown_def)

lemma closeForOpenWindow_cong:
  assumes "dontTurndown s = dontTurndown s'"
  shows "closeForOpenWindow P s valvePCOpen = closeForOpenWindow P s' valvePCOpen"
  unfolding closeForOpenWindow_def assms ..

lemma slewOpen_cong:
  assumes "dontTurnup s = dontTurnup s'"
    and "adjustedTempC P s inputState = adjustedTempC P s' inputState"
    and "getRawDelta s = getRawDelta s'"
    and "isFiltering s = isFiltering s'"
  shows "slewOpen P s valvePCOpen inputState = slewOpen P s' valvePCOpen inputState"
  unfolding slewOpen_def assms ..

lemma overTarget_cong:
  assumes "dontTurndown s = dontTurndown s'"
    and "adjustedTempC P s inputState = adjustedTempC P s' inputState"
    and "getRawDelta s = getRawDelta s'"
    and "isFiltering s = isFiltering s'"
  shows "overTarget P s valvePCOpen inputState = overTarget P s' valvePCOpen inputState"
  unfolding overTarget_def assms ..

lemma slightlyTooOpen_cong:
  assumes "dontTurndown s = dontTurndown s'"
    and "targetPO P s inputState = targetPO P s' inputState"
    and "lsbits P s inputState = lsbits P s' inputState"
    and "getRawDelta s = getRawDelta s'"
    and "isFiltering s = isFiltering s'"
  shows "slightlyTooOpen P s valvePCOpen inputState = slightlyTooOpen P s' valvePCOpen inputState"
  unfolding slightlyTooOpen_def assms ..

lemma slightlyTooClosed_cong:
  assumes "dontTurnup s = dontTurnup s'"
    and "targetPO P s inputState = targetPO P s' inputState"
    and "lsbits P s inputState = lsbits P s' inputState"
    and "getRawDelta s = getRawDelta s'"
  shows "slightlyTooClosed P s valvePCOpen inputState = slightlyTooClosed P s' valvePCOpen inputState"
  unfolding slightlyTooClosed_def assms ..

lemma hold_or_same_down:
  "computeRequiredTRVPercentOpen P s valvePCOpen inputState = valvePCOpen \<or>
   computeRequiredTRVPercentOpen P s valvePCOpen inputState =
     computeRequiredTRVPercentOpen P (s\<lparr>valveTurnupCountdownM := 0\<rparr>) valvePCOpen inputState"
proof (cases "dontTurndown s")
  case False
  then have "s\<lparr>valveTurnupCountdownM := 0\<rparr> = s"
    by (simp add: dontTurndown_def)
  then show ?thesis by simp
next
  case True
  let ?s' = "s\<lparr>valveTurnupCountdownM := 0\<rparr>"
  have window: "closeForOpenWindow P s valvePCOpen = valvePCOpen"
    using True by (simp add: closeForOpenWindow_def)
  have slew: "slewOpen P ?s' valvePCOpen inputState = slewOpen P s valvePCOpen inputState"
    by (rule slewOpen_cong) (simp_all add: countdown_irrelevant)
  have under: "underTarget P s valvePCOpen inputState = valvePCOpen \<or>
        underTarget P s valvePCOpen inputState = underTarget P ?s' valvePCOpen inputState"
    by (simp add: underTarget_def countdown_irrelevant window slew)
  have over: "overTarget P s valvePCOpen inputState = valvePCOpen"
    using True by (simp add: overTarget_def)
  have "slightlyTooOpen P s valvePCOpen inputState = valvePCOpen"
    using True by (simp add: slightlyTooOpen_def Let_def)
  moreover have "slightlyTooClosed P ?s' valvePCOpen inputState =
        slightlyTooClosed P s valvePCOpen inputState"
    by (rule slightlyTooClosed_cong) (simp_all add: countdown_irrelevant)
  ultimately have at: "atTarget P s valvePCOpen inputState = valvePCOpen \<or>
        atTarget P s valvePCOpen inputState = atTarget P ?s' valvePCOpen inputState"
    by (simp add: atTarget_def countdown_irrelevant Let_def)
  from under over at show ?thesis
    by (simp add: computeRequiredTRVPercentOpen_def countdown_irrelevant)
qed

lemma hold_or_same_up:
  "computeRequiredTRVPercentOpen P s valvePCOpen inputState = valvePCOpen \<or>
   computeRequiredTRVPercentOpen P s valvePCOpen inputState =
     computeRequiredTRVPercentOpen P (s\<lparr>valveTurndownCountdownM := 0\<rparr>) valvePCOpen inputState"
proof (cases "dontTurnup s")
  case False
  then have "s\<lparr>valveTurndownCountdownM := 0\<rparr> = s"
    by (simp add: dontTurnup_def)
  then show ?thesis by simp
next
  case True
  let ?s' = "s\<lparr>valveTurndownCountdownM := 0\<rparr>"
  have window: "closeForOpenWindow P ?s' valvePCOpen = closeForOpenWindow P s valvePCOpen"
    by (rule closeForOpenWindow_cong) (simp add: countdown_irrelevant)
  have slew: "slewOpen P s valvePCOpen inputState = valvePCOpen"
    using True by (simp add: slewOpen_def)
  have under: "underTarget P s valvePCOpen inputState = valvePCOpen \<or>
        underTarget P s valvePCOpen inputState = underTarget P ?s' valvePCOpen inputState"
    by (simp add: underTarget_def countdown_irrelevant window slew)
  have over: "overTarget P ?s' valvePCOpen inputState = overTarget P s valvePCOpen inputState"
    by (rule overTarget_cong) (simp_all add: countdown_irrelevant)
  have "slightlyTooOpen P ?s' valvePCOpen inputState = slightlyTooOpen P s valvePCOpen inputState"
    by (rule slightlyTooOpen_cong) (simp_all add: countdown_irrelevant)
  moreover have "slightlyTooClosed P s valvePCOpen inputState =
        (if inBakeMode inputState then maxPCOpen inputState else valvePCOpen)"
    using True by (simp add: slightlyTooClosed_def Let_def)
  moreover have "inBakeMode inputState \<Longrightarrow>
        slightlyTooClosed P ?s' valvePCOpen inputState = maxPCOpen inputState"
    by (simp add: slightlyTooClosed_def)
  ultimately have at: "atTarget P s valvePCOpen inputState = valvePCOpen \<or>
        atTarget P s valvePCOpen inputState = atTarget P ?s' valvePCOpen inputState"
    by (simp add: atTarget_def countdown_irrelevant Let_def)
  from under over at show ?thesis
    by (simp add: computeRequiredTRVPercentOpen_def countdown_irrelevant)
qed

lemma u8_diff:
  fixes a b :: "8 word"
  assumes "uint b \<le> uint a"
  shows "uint (word_of_int (uint a - uint b) :: 8 word) = uint a - uint b"
proof (rule u8)
  show "0 \<le> uint a - uint b" using assms by linarith
  show "uint a - uint b < 256" using u8_lt [of a] uint_ge_0 [of b] by linarith
qed

lemma constrain_ge:
  "0 \<le> l \<Longrightarrow> constrain (l + 10) 10 m < v \<Longrightarrow> v \<le> m \<Longrightarrow> 10 \<le> v"
  by (auto simp add: constrain_def split: if_splits)

lemma slewOpen_cases:
  "slewOpen P s valvePCOpen inputState = valvePCOpen \<or>
   slewOpen P s valvePCOpen inputState = word_of_int (uint valvePCOpen + 1) \<or>
   uint valvePCOpen < uint (slewOpen P s valvePCOpen inputState) \<or>
   slewOpen P s valvePCOpen inputState =
      word_of_int (min (uint (word_of_int (uint valvePCOpen + 5) :: uint8_t))
                       (uint (maxPCOpen inputState))) \<or>
   slewOpen P s valvePCOpen inputState =
      word_of_int (min (uint (word_of_int (uint valvePCOpen + 20) :: uint8_t))
                       (uint (maxPCOpen inputState)))"
  by (simp add: slewOpen_def Let_def slew_defs)

lemma slewOpen_ge:
  assumes "uint valvePCOpen < uint (maxPCOpen inputState)" "uint (maxPCOpen inputState) \<le> 100"
  shows "uint valvePCOpen \<le> uint (slewOpen P s valvePCOpen inputState)"
proof -
  let ?v = "uint valvePCOpen" and ?m = "uint (maxPCOpen inputState)"
  have v: "0 \<le> ?v" "?v + 1 < 256" using assms by simp_all
  from slewOpen_cases [of P s valvePCOpen inputState] show ?thesis
  proof (elim disjE)
    assume "slewOpen P s valvePCOpen inputState = word_of_int (?v + 1)"
    then show ?thesis using leaf_plus [of ?v 1] v by simp
  next
    assume "slewOpen P s valvePCOpen inputState =
            word_of_int (min (uint (word_of_int (?v + 5) :: uint8_t)) ?m)"
    then show ?thesis using leaf_slew [of ?v ?m 5] v assms by simp
  next
    assume "slewOpen P s valvePCOpen inputState =
            word_of_int (min (uint (word_of_int (?v + 20) :: uint8_t)) ?m)"
    then show ?thesis using leaf_slew [of ?v ?m 20] v assms by simp
  qed simp_all
qed

lemma closeForOpenWindow_cases:
  "closeForOpenWindow P s valvePCOpen = valvePCOpen \<or>
   (uint (DEFAULT_VALVE_PC_SAFER_OPEN P) \<le> uint valvePCOpen \<and>
    closeForOpenWindow P s valvePCOpen = word_of_int (uint (DEFAULT_VALVE_PC_SAFER_OPEN P) - 1)) \<or>
   (5 < uint valvePCOpen \<and>
    closeForOpenWindow P s valvePCOpen = word_of_int (uint valvePCOpen - 5)) \<or>
   closeForOpenWindow P s valvePCOpen = 0"
  by (simp add: closeForOpenWindow_def slew_defs)

lemma closeForOpenWindow_le:
  assumes "0 < uint (DEFAULT_VALVE_PC_SAFER_OPEN P)"
  shows "uint (closeForOpenWindow P s valvePCOpen) \<le> uint valvePCOpen"
proof -
  let ?v = "uint valvePCOpen" and ?S = "uint (DEFAULT_VALVE_PC_SAFER_OPEN P)"
  from closeForOpenWindow_cases [of P s valvePCOpen] show ?thesis
  proof (elim disjE conjE)
    assume "?S \<le> ?v" and r: "closeForOpenWindow P s valvePCOpen = word_of_int (?S - 1)"
    have "uint (word_of_int (?S - 1) :: uint8_t) \<le> ?S"
      using assms u8_lt [of "DEFAULT_VALVE_PC_SAFER_OPEN P"] by (intro leaf_minus) auto
    with \<open>?S \<le> ?v\<close> show ?thesis unfolding r by linarith
  next
    assume "5 < ?v" and r: "closeForOpenWindow P s valvePCOpen = word_of_int (?v - 5)"
    show ?thesis unfolding r using \<open>5 < ?v\<close> u8_lt [of valvePCOpen] by (intro leaf_minus) auto
  qed simp_all
qed

lemma overTarget_cases:
  "overTarget P s valvePCOpen inputState = valvePCOpen \<or>
   overTarget P s valvePCOpen inputState = 0 \<or>
   (valvePCOpen \<noteq> 0 \<and>
    overTarget P s valvePCOpen inputState = word_of_int (uint valvePCOpen - 1)) \<or>
   (constrain (uint (word_of_int (if uint (minPCOpen inputState) > 0
                                  then uint (minPCOpen inputState) - 1 else 0) :: uint8_t) + 10)
              10 (uint (maxPCOpen inputState)) < uint valvePCOpen \<and>
    overTarget P s valvePCOpen inputState = word_of_int (uint valvePCOpen - 10)) \<or>
   (\<not> uint valvePCOpen < uint (minPCOpen inputState) \<and>
    overTarget P s valvePCOpen inputState =
      word_of_int (if uint (minPCOpen inputState) > 0 then uint (minPCOpen inputState) - 1 else 0))"
  by (simp add: overTarget_def Let_def slew_defs)

lemma overTarget_le:
  assumes "uint valvePCOpen \<le> uint (maxPCOpen inputState) \<or> 10 \<le> uint valvePCOpen"
  shows "uint (overTarget P s valvePCOpen inputState) \<le> uint valvePCOpen"
proof -
  let ?v = "uint valvePCOpen" and ?m = "uint (maxPCOpen inputState)"
  let ?n = "uint (minPCOpen inputState)"
  let ?L = "word_of_int (if ?n > 0 then ?n - 1 else 0) :: uint8_t"
  have v: "0 \<le> ?v" "?v < 256" using u8_lt [of valvePCOpen] by simp_all
  have L: "0 \<le> uint ?L" "uint ?L \<le> ?n"
    using u8_lt [of "minPCOpen inputState"] by (simp_all add: u8)
  from overTarget_cases [of P s valvePCOpen inputState] show ?thesis
  proof (elim disjE conjE)
    assume "valvePCOpen \<noteq> 0" and r: "overTarget P s valvePCOpen inputState = word_of_int (?v - 1)"
    from \<open>valvePCOpen \<noteq> 0\<close> have "?v \<noteq> 0"
      by (simp add: word_uint_eq_iff)
    with uint_ge_0 [of valvePCOpen] have "1 \<le> ?v"
      by linarith
    then show ?thesis unfolding r using v by (intro leaf_minus) auto
  next
    assume c: "constrain (uint ?L + 10) 10 ?m < ?v"
      and r: "overTarget P s valvePCOpen inputState = word_of_int (?v - 10)"
    from assms have "10 \<le> ?v"
    proof
      assume "?v \<le> ?m"
      with L(1) c show ?thesis by (rule constrain_ge)
    qed
    then show ?thesis unfolding r using v by (intro leaf_minus) auto
  next
    assume "\<not> ?v < ?n" and r: "overTarget P s valvePCOpen inputState = ?L"
    then show ?thesis using L by simp
  qed simp_all
qed


lemma slightlyTooOpen_cases:
  "slightlyTooOpen P s valvePCOpen inputState = valvePCOpen \<or>
   slightlyTooOpen P s valvePCOpen inputState = word_of_int (uint valvePCOpen - 1) \<or>
   (10 < uint (word_of_int (uint valvePCOpen - uint (targetPO P s inputState)) :: uint8_t) \<and>
    slightlyTooOpen P s valvePCOpen inputState = word_of_int (uint valvePCOpen - 10)) \<or>
   slightlyTooOpen P s valvePCOpen inputState = targetPO P s inputState"
  by (simp add: slightlyTooOpen_def Let_def slew_defs)

lemma slightlyTooOpen_le:
  assumes "uint (targetPO P s inputState) < uint valvePCOpen"
  shows "uint (slightlyTooOpen P s valvePCOpen inputState) \<le> uint valvePCOpen"
proof -
  let ?v = "uint valvePCOpen" and ?t = "uint (targetPO P s inputState)"
  have v: "0 \<le> ?t" "?v < 256" using u8_lt [of valvePCOpen] by simp_all
  have d: "uint (word_of_int (?v - ?t) :: uint8_t) = ?v - ?t"
    using assms by (intro u8_diff) simp
  from slightlyTooOpen_cases [of P s valvePCOpen inputState] show ?thesis
  proof (elim disjE conjE)
    assume r: "slightlyTooOpen P s valvePCOpen inputState = word_of_int (?v - 1)"
    have "1 \<le> ?v"
      using assms uint_ge_0 [of "targetPO P s inputState"] by linarith
    then show ?thesis unfolding r using v by (intro leaf_minus) auto
  next
    assume "10 < uint (word_of_int (?v - ?t) :: uint8_t)"
      and r: "slightlyTooOpen P s valvePCOpen inputState = word_of_int (?v - 10)"
    then have "10 \<le> ?v" unfolding d using v by linarith
    then show ?thesis unfolding r using v by (intro leaf_minus) auto
  next
    assume "slightlyTooOpen P s valvePCOpen inputState = targetPO P s inputState"
    then show ?thesis using assms by simp
  qed simp_all
qed

lemma slightlyTooClosed_cases:
  "slightlyTooClosed P s valvePCOpen inputState = valvePCOpen \<or>
   (inBakeMode inputState \<and> slightlyTooClosed P s valvePCOpen inputState = maxPCOpen inputState) \<or>
   slightlyTooClosed P s valvePCOpen inputState = word_of_int (uint valvePCOpen + 1) \<or>
   (10 < uint (word_of_int (uint (targetPO P s inputState) - uint valvePCOpen) :: uint8_t) \<and>
    slightlyTooClosed P s valvePCOpen inputState = word_of_int (uint valvePCOpen + 10)) \<or>
   (5 < uint (word_of_int (uint (targetPO P s inputState) - uint valvePCOpen) :: uint8_t) \<and>
    slightlyTooClosed P s valvePCOpen inputState = word_of_int (uint valvePCOpen + 5)) \<or>
   slightlyTooClosed P s valvePCOpen inputState = targetPO P s inputState"
  by (simp add: slightlyTooClosed_def Let_def slew_defs u8)

lemma slightlyTooClosed_ge:
  assumes "uint valvePCOpen < uint (targetPO P s inputState)"
    and "uint valvePCOpen \<le> uint (maxPCOpen inputState)"
  shows "uint valvePCOpen \<le> uint (slightlyTooClosed P s valvePCOpen inputState)"
proof -
  let ?v = "uint valvePCOpen" and ?t = "uint (targetPO P s inputState)"
  have v: "0 \<le> ?v" "?t < 256" using u8_lt [of "targetPO P s inputState"] by simp_all
  have d: "uint (word_of_int (?t - ?v) :: uint8_t) = ?t - ?v"
    using assms by (intro u8_diff) simp
  from slightlyTooClosed_cases [of P s valvePCOpen inputState] show ?thesis
  proof (elim disjE conjE)
    assume r: "slightlyTooClosed P s valvePCOpen inputState = maxPCOpen inputState"
    show ?thesis unfolding r using assms by simp
  next
    assume r: "slightlyTooClosed P s valvePCOpen inputState = word_of_int (?v + 1)"
    have "?v + 1 < 256"
      using assms(1) v(2) by linarith
    then show ?thesis unfolding r using v by (intro leaf_plus) auto
  next
    assume "10 < uint (word_of_int (?t - ?v) :: uint8_t)"
      and r: "slightlyTooClosed P s valvePCOpen inputState = word_of_int (?v + 10)"
    then have "?v + 10 < 256" unfolding d using v by linarith
    then show ?thesis unfolding r using v by (intro leaf_plus) auto
  next
    assume "5 < uint (word_of_int (?t - ?v) :: uint8_t)"
      and r: "slightlyTooClosed P s valvePCOpen inputState = word_of_int (?v + 5)"
    then have "?v + 5 < 256" unfolding d using v by linarith
    then show ?thesis unfolding r using v by (intro leaf_plus) auto
  next
    assume "slightlyTooClosed P s valvePCOpen inputState = targetPO P s inputState"
    then show ?thesis using assms by simp
  qed simp_all
qed

lemma targetPO_le_max:
  assumes "uint (minPCOpen inputState) \<le> uint (maxPCOpen inputState)"
  shows "uint (targetPO P s inputState) \<le> uint (maxPCOpen inputState)"
proof -
  let ?m = "uint (maxPCOpen inputState)" and ?n = "uint (minPCOpen inputState)"
  define raw where "raw = uint (word_of_int
      (uint (word_of_int (16 - uint (lsbits P s inputState)) :: uint8_t) * ulpStep) :: uint8_t)"
  have raw: "targetPO P s inputState = word_of_int (constrain raw ?n ?m)"
    by (simp add: targetPO_def Let_def raw_def)
  have "0 \<le> raw" "0 \<le> ?n"
    by (simp_all add: raw_def)
  then have c: "0 \<le> constrain raw ?n ?m" "constrain raw ?n ?m \<le> ?m"
    using assms by (auto simp add: constrain_def)
  then have "constrain raw ?n ?m < 256"
    using u8_lt [of "maxPCOpen inputState"] by linarith
  with c(1) have "uint (word_of_int (constrain raw ?n ?m) :: uint8_t) = constrain raw ?n ?m"
    by (rule u8)
  with c(2) show ?thesis unfolding raw by linarith
qed

lemma armed_down_ge:
  assumes armed: "dontTurndown s"
    and under: "adjustedTempC P s inputState < targetTempC inputState \<Longrightarrow>
        (\<not> inBakeMode inputState \<and> windowOpen P s inputState) \<or>
        (uint valvePCOpen \<le> uint (maxPCOpen inputState) \<and> uint (maxPCOpen inputState) \<le> 100)"
    and at: "adjustedTempC P s inputState = targetTempC inputState \<Longrightarrow>
        uint (minPCOpen inputState) \<le> uint (maxPCOpen inputState) \<or>
        uint valvePCOpen \<le> uint (maxPCOpen inputState)"
  shows "uint valvePCOpen \<le> uint (computeRequiredTRVPercentOpen P s valvePCOpen inputState)"
proof -
  let ?v = "uint valvePCOpen" and ?m = "uint (maxPCOpen inputState)"
  let ?a = "adjustedTempC P s inputState" and ?t = "targetTempC inputState"
  have window: "closeForOpenWindow P s valvePCOpen = valvePCOpen"
    using armed by (simp add: closeForOpenWindow_def)
  have over: "overTarget P s valvePCOpen inputState = valvePCOpen"
    using armed by (simp add: overTarget_def)
  have tooOpen: "slightlyTooOpen P s valvePCOpen inputState = valvePCOpen"
    using armed by (simp add: slightlyTooOpen_def Let_def)
  have u: "?v \<le> uint (underTarget P s valvePCOpen inputState)" if "?a < ?t"
    using under [OF that]
  proof
    assume "\<not> inBakeMode inputState \<and> windowOpen P s inputState"
    then show ?thesis by (simp add: underTarget_def window)
  next
    assume "?v \<le> ?m \<and> ?m \<le> 100"
    then show ?thesis
      using slewOpen_ge [of valvePCOpen inputState P s]
      by (simp add: underTarget_def window)
  qed
  have a: "?v \<le> uint (atTarget P s valvePCOpen inputState)" if "?a = ?t"
  proof (cases "?v < uint (targetPO P s inputState)")
    case True
    from at [OF that] have "?v \<le> ?m"
    proof
      assume "uint (minPCOpen inputState) \<le> ?m"
      then have "uint (targetPO P s inputState) \<le> ?m"
        by (rule targetPO_le_max)
      with True show ?thesis by linarith
    qed
    then show ?thesis
      using slightlyTooClosed_ge [OF True] True by (auto simp add: atTarget_def Let_def)
  next
    case False
    then have "targetPO P s inputState \<noteq> valvePCOpen \<Longrightarrow>
        uint (targetPO P s inputState) < uint valvePCOpen"
      by (simp add: word_uint_eq_iff)
    then show ?thesis
      by (auto simp add: atTarget_def Let_def tooOpen)
  qed
  consider "?a < ?t" | "?t < ?a" | "?a = ?t"
    by linarith
  then show ?thesis
  proof cases
    case 1
    then show ?thesis using u by (simp add: computeRequiredTRVPercentOpen_def)
  next
    case 2
    then show ?thesis by (simp add: computeRequiredTRVPercentOpen_def over)
  next
    case 3
    then show ?thesis using a by (simp add: computeRequiredTRVPercentOpen_def)
  qed
qed

lemma armed_up_le:
  assumes armed: "dontTurnup s"
    and safer: "0 < uint (DEFAULT_VALVE_PC_SAFER_OPEN P)"
    and bake: "inBakeMode inputState \<Longrightarrow>
        targetTempC inputState < adjustedTempC P s inputState \<or>
        (adjustedTempC P s inputState = targetTempC inputState \<and>
         uint (targetPO P s inputState) \<le> uint valvePCOpen)"
    and over: "targetTempC inputState < adjustedTempC P s inputState \<Longrightarrow>
        uint valvePCOpen \<le> uint (maxPCOpen inputState) \<or> 10 \<le> uint valvePCOpen"
  shows "uint (computeRequiredTRVPercentOpen P s valvePCOpen inputState) \<le> uint valvePCOpen"
proof -
  let ?v = "uint valvePCOpen" and ?m = "uint (maxPCOpen inputState)"
  let ?a = "adjustedTempC P s inputState" and ?t = "targetTempC inputState"
  have slew: "slewOpen P s valvePCOpen inputState = valvePCOpen"
    using armed by (simp add: slewOpen_def)
  have u: "uint (underTarget P s valvePCOpen inputState) \<le> ?v" if "?a < ?t"
  proof -
    have "\<not> inBakeMode inputState"
      using bake that by auto
    then show ?thesis
      using closeForOpenWindow_le [OF safer, of s valvePCOpen]
      by (simp add: underTarget_def slew)
  qed
  have a: "uint (atTarget P s valvePCOpen inputState) \<le> ?v" if "?a = ?t"
  proof (cases "?v < uint (targetPO P s inputState)")
    case True
    then have "\<not> inBakeMode inputState"
      using bake that by auto
    then have "slightlyTooClosed P s valvePCOpen inputState = valvePCOpen"
      using armed by (simp add: slightlyTooClosed_def Let_def)
    then show ?thesis
      using True by (simp add: atTarget_def Let_def)
  next
    case False
    then have "targetPO P s inputState \<noteq> valvePCOpen \<Longrightarrow>
        uint (targetPO P s inputState) < uint valvePCOpen"
      by (simp add: word_uint_eq_iff)
    then show ?thesis
      using slightlyTooOpen_le [of P s inputState valvePCOpen]
      by (auto simp add: atTarget_def Let_def)
  qed
  consider "?a < ?t" | "?t < ?a" | "?a = ?t"
    by linarith
  then show ?thesis
  proof cases
    case 1
    then show ?thesis using u by (simp add: computeRequiredTRVPercentOpen_def)
  next
    case 2
    then show ?thesis
      using overTarget_le [OF over [OF 2], of P s]
      by (simp add: computeRequiredTRVPercentOpen_def)
  next
    case 3
    then show ?thesis using a by (simp add: computeRequiredTRVPercentOpen_def)
  qed
qed

text \<open>
  Claim C4, as amended. A tick that increases the percent loads the countdown that defers
  turning down with its delay, and a tick that decreases it loads the countdown that
  defers turning up. Let \<open>s1\<close> be the state \<^verbatim>\<open>tick\<close> hands to
  \<^verbatim>\<open>computeRequiredTRVPercentOpen\<close>, its countdowns already decremented.

  While turning down is deferred in \<open>s1\<close>, a tick that would decrease the percent were
  the countdown at zero leaves the percent as it is: over the target always; at the target
  when \<open>minPCOpen\<close> is at most \<open>maxPCOpen\<close> or the percent is at most \<open>maxPCOpen\<close>; under
  the target when the window-open test is met out of bake mode, or when the percent is at
  most \<open>maxPCOpen\<close> and \<open>maxPCOpen\<close> at most 100.

  While turning up is deferred in \<open>s1\<close> (with a safer-open threshold of at least 1), a
  tick that would increase the percent were the countdown at zero leaves the percent as it
  is: under the target out of bake mode; at the target out of bake mode or when
  \<open>targetPO\<close> is not above the percent; over the target when the percent is at most
  \<open>maxPCOpen\<close> or at least 10.
\<close>

theorem anti_hunt:
  "let s1 = tick_update P s inputState;
       r = tick P valvePCOpen s inputState;
       under = (adjustedTempC P s1 inputState < targetTempC inputState);
       over = (targetTempC inputState < adjustedTempC P s1 inputState);
       level = (adjustedTempC P s1 inputState = targetTempC inputState)
   in (uint valvePCOpen < uint (fst r) \<longrightarrow>
         valveTurnupCountdownM (snd r) = ANTISEEK_VALVE_RECLOSE_DELAY_M P \<and>
         dontTurndown (snd r) = (0 < ANTISEEK_VALVE_RECLOSE_DELAY_M P)) \<and>
      (uint (fst r) < uint valvePCOpen \<longrightarrow>
         valveTurndownCountdownM (snd r) = ANTISEEK_VALVE_REOPEN_DELAY_M P \<and>
         dontTurnup (snd r) = (0 < ANTISEEK_VALVE_REOPEN_DELAY_M P)) \<and>
      (dontTurndown s1 \<and>
       (under \<longrightarrow>
          (\<not> inBakeMode inputState \<and> windowOpen P s1 inputState) \<or>
          (uint valvePCOpen \<le> uint (maxPCOpen inputState) \<and> uint (maxPCOpen inputState) \<le> 100)) \<and>
       (level \<longrightarrow>
          uint (minPCOpen inputState) \<le> uint (maxPCOpen inputState) \<or>
          uint valvePCOpen \<le> uint (maxPCOpen inputState)) \<and>
       uint (computeRequiredTRVPercentOpen P (s1\<lparr>valveTurnupCountdownM := 0\<rparr>) valvePCOpen inputState)
         < uint valvePCOpen
       \<longrightarrow> fst r = valvePCOpen) \<and>
      (dontTurnup s1 \<and> 0 < uint (DEFAULT_VALVE_PC_SAFER_OPEN P) \<and>
       (inBakeMode inputState \<longrightarrow>
          over \<or> (level \<and> uint (targetPO P s1 inputState) \<le> uint valvePCOpen)) \<and>
       (over \<longrightarrow>
          uint valvePCOpen \<le> uint (maxPCOpen inputState) \<or> 10 \<le> uint valvePCOpen) \<and>
       uint valvePCOpen
         < uint (computeRequiredTRVPercentOpen P (s1\<lparr>valveTurndownCountdownM := 0\<rparr>) valvePCOpen inputState)
       \<longrightarrow> fst r = valvePCOpen)"
proof -
  let ?s1 = "tick_update P s inputState"
  let ?r = "tick P valvePCOpen s inputState"
  let ?c = "computeRequiredTRVPercentOpen P ?s1 valvePCOpen inputState"
  let ?a = "adjustedTempC P ?s1 inputState" and ?t = "targetTempC inputState"
  have up: "uint valvePCOpen < uint (fst ?r) \<longrightarrow>
         valveTurnupCountdownM (snd ?r) = ANTISEEK_VALVE_RECLOSE_DELAY_M P \<and>
         dontTurndown (snd ?r) = (0 < ANTISEEK_VALVE_RECLOSE_DELAY_M P)"
    using tick_countdowns(1) [of valvePCOpen P s inputState]
    by (auto simp add: dontTurndown_def)
  have down: "uint (fst ?r) < uint valvePCOpen \<longrightarrow>
         valveTurndownCountdownM (snd ?r) = ANTISEEK_VALVE_REOPEN_DELAY_M P \<and>
         dontTurnup (snd ?r) = (0 < ANTISEEK_VALVE_REOPEN_DELAY_M P)"
    using tick_countdowns(2) [of P valvePCOpen s inputState]
    by (auto simp add: dontTurnup_def)
  have hold_down: "fst ?r = valvePCOpen"
    if armed: "dontTurndown ?s1"
      and under: "?a < ?t \<longrightarrow>
          (\<not> inBakeMode inputState \<and> windowOpen P ?s1 inputState) \<or>
          (uint valvePCOpen \<le> uint (maxPCOpen inputState) \<and> uint (maxPCOpen inputState) \<le> 100)"
      and at: "?a = ?t \<longrightarrow>
          uint (minPCOpen inputState) \<le> uint (maxPCOpen inputState) \<or>
          uint valvePCOpen \<le> uint (maxPCOpen inputState)"
      and dec: "uint (computeRequiredTRVPercentOpen P (?s1\<lparr>valveTurnupCountdownM := 0\<rparr>)
          valvePCOpen inputState) < uint valvePCOpen"
  proof -
    have "uint valvePCOpen \<le> uint ?c"
      using armed under [rule_format] at [rule_format] by (rule armed_down_ge)
    with dec hold_or_same_down [of P ?s1 valvePCOpen inputState] have "?c = valvePCOpen"
      by auto
    then show ?thesis by (simp add: fst_tick)
  qed
  have hold_up: "fst ?r = valvePCOpen"
    if armed: "dontTurnup ?s1"
      and safer: "0 < uint (DEFAULT_VALVE_PC_SAFER_OPEN P)"
      and bake: "inBakeMode inputState \<longrightarrow>
          ?t < ?a \<or> (?a = ?t \<and> uint (targetPO P ?s1 inputState) \<le> uint valvePCOpen)"
      and over: "?t < ?a \<longrightarrow>
          uint valvePCOpen \<le> uint (maxPCOpen inputState) \<or> 10 \<le> uint valvePCOpen"
      and inc: "uint valvePCOpen
         < uint (computeRequiredTRVPercentOpen P (?s1\<lparr>valveTurndownCountdownM := 0\<rparr>)
             valvePCOpen inputState)"
  proof -
    have "uint ?c \<le> uint valvePCOpen"
      using armed safer bake [rule_format] over [rule_format] by (rule armed_up_le)
    with inc hold_or_same_up [of P ?s1 valvePCOpen inputState] have "?c = valvePCOpen"
      by auto
    then show ?thesis by (simp add: fst_tick)
  qed
  from up down hold_down hold_up show ?thesis
    unfolding Let_def by blast
qed

theorem anti_hunt_witness:
  "fst (tick example_params 80
      ((settled_state (replicate 16 340))\<lparr>valveTurnupCountdownM := 4\<rparr>)
      ((example_input 20 348)\<lparr>maxPCOpen := 60\<rparr>)) = 80 \<and>
   fst (tick example_params 80
      ((settled_state (falling_history 280))\<lparr>valveTurnupCountdownM := 4\<rparr>)
      ((example_input 20 288)\<lparr>hasEcoBias := True, maxPCOpen := 60\<rparr>)) = 80 \<and>
   fst (tick example_params 40
      ((settled_state (replicate 16 300))\<lparr>valveTurndownCountdownM := 4\<rparr>)
      (example_input 20 308)) = 40 \<and>
   dontTurndown (snd (tick example_params 40 (settled_state (replicate 16 300)) (example_input 20 308))) \<and>
   dontTurnup (snd (tick example_params 40 (settled_state (replicate 16 340)) (example_input 20 348)))"
proof -
  let ?P = example_params
  let ?hot = "example_input 20 348" and ?cold = "example_input 20 308"
  let ?hot60 = "(example_input 20 348)\<lparr>maxPCOpen := 60\<rparr>"
  let ?draught = "(example_input 20 288)\<lparr>hasEcoBias := True, maxPCOpen := 60\<rparr>"
  let ?a = "(settled_state (replicate 16 340))\<lparr>valveTurnupCountdownM := 4\<rparr>"
  let ?w = "(settled_state (falling_history 280))\<lparr>valveTurnupCountdownM := 4\<rparr>"
  let ?b = "(settled_state (replicate 16 300))\<lparr>valveTurndownCountdownM := 4\<rparr>"
  let ?c = "settled_state (replicate 16 300)"
  let ?d = "settled_state (replicate 16 340)"
  have "dontTurndown (tick_update ?P ?a ?hot60) \<and>
       (adjustedTempC ?P (tick_update ?P ?a ?hot60) ?hot60 < targetTempC ?hot60 \<longrightarrow>
          (\<not> inBakeMode ?hot60 \<and> windowOpen ?P (tick_update ?P ?a ?hot60) ?hot60) \<or>
          (uint (80 :: uint8_t) \<le> uint (maxPCOpen ?hot60) \<and> uint (maxPCOpen ?hot60) \<le> 100)) \<and>
       (adjustedTempC ?P (tick_update ?P ?a ?hot60) ?hot60 = targetTempC ?hot60 \<longrightarrow>
          uint (minPCOpen ?hot60) \<le> uint (maxPCOpen ?hot60) \<or>
          uint (80 :: uint8_t) \<le> uint (maxPCOpen ?hot60)) \<and>
       uint (computeRequiredTRVPercentOpen ?P ((tick_update ?P ?a ?hot60)\<lparr>valveTurnupCountdownM := 0\<rparr>)
         80 ?hot60) < uint (80 :: uint8_t)"
    by (intro conjI; code_simp)
  with anti_hunt [of ?P ?a ?hot60 80] have 1: "fst (tick ?P 80 ?a ?hot60) = 80"
    unfolding Let_def by blast
  have "dontTurndown (tick_update ?P ?w ?draught) \<and>
       (adjustedTempC ?P (tick_update ?P ?w ?draught) ?draught < targetTempC ?draught \<longrightarrow>
          (\<not> inBakeMode ?draught \<and> windowOpen ?P (tick_update ?P ?w ?draught) ?draught) \<or>
          (uint (80 :: uint8_t) \<le> uint (maxPCOpen ?draught) \<and> uint (maxPCOpen ?draught) \<le> 100)) \<and>
       (adjustedTempC ?P (tick_update ?P ?w ?draught) ?draught = targetTempC ?draught \<longrightarrow>
          uint (minPCOpen ?draught) \<le> uint (maxPCOpen ?draught) \<or>
          uint (80 :: uint8_t) \<le> uint (maxPCOpen ?draught)) \<and>
       uint (computeRequiredTRVPercentOpen ?P ((tick_update ?P ?w ?draught)\<lparr>valveTurnupCountdownM := 0\<rparr>)
         80 ?draught) < uint (80 :: uint8_t)"
    by (intro conjI; code_simp)
  with anti_hunt [of ?P ?w ?draught 80] have 2: "fst (tick ?P 80 ?w ?draught) = 80"
    unfolding Let_def by blast
  have "dontTurnup (tick_update ?P ?b ?cold) \<and>
       0 < uint (DEFAULT_VALVE_PC_SAFER_OPEN ?P) \<and>
       (inBakeMode ?cold \<longrightarrow>
          targetTempC ?cold < adjustedTempC ?P (tick_update ?P ?b ?cold) ?cold \<or>
          (adjustedTempC ?P (tick_update ?P ?b ?cold) ?cold = targetTempC ?cold \<and>
           uint (targetPO ?P (tick_update ?P ?b ?cold) ?cold) \<le> uint (40 :: uint8_t))) \<and>
       (targetTempC ?cold < adjustedTempC ?P (tick_update ?P ?b ?cold) ?cold \<longrightarrow>
          uint (40 :: uint8_t) \<le> uint (maxPCOpen ?cold) \<or> 10 \<le> uint (40 :: uint8_t)) \<and>
       uint (40 :: uint8_t) <
       uint (computeRequiredTRVPercentOpen ?P ((tick_update ?P ?b ?cold)\<lparr>valveTurndownCountdownM := 0\<rparr>)
         40 ?cold)"
    by (intro conjI; code_simp)
  with anti_hunt [of ?P ?b ?cold 40] have 3: "fst (tick ?P 40 ?b ?cold) = 40"
    unfolding Let_def by blast
  have "uint (40 :: uint8_t) < uint (fst (tick ?P 40 ?c ?cold))"
    "0 < ANTISEEK_VALVE_RECLOSE_DELAY_M ?P"
    by code_simp+
  with anti_hunt [of ?P ?c ?cold 40] have 4: "dontTurndown (snd (tick ?P 40 ?c ?cold))"
    unfolding Let_def by blast
  have "uint (fst (tick ?P 40 ?d ?hot)) < uint (40 :: uint8_t)"
    "0 < ANTISEEK_VALVE_REOPEN_DELAY_M ?P"
    by code_simp+
  with anti_hunt [of ?P ?d ?hot 40] have 5: "dontTurnup (snd (tick ?P 40 ?d ?hot))"
    unfolding Let_def by blast
  from 1 2 3 4 5 show ?thesis by blast
qed

text \<open>
  Claim C4 as stated fails where the source returns \<open>maxPCOpen\<close> without asking the
  countdowns. With turning down deferred and the valve at 80 above a \<open>maxPCOpen\<close> of 60,
  under the target: the window-open test not being met, the tick brings the valve down to
  60, and so it does in bake mode. With turning up deferred and the valve at 10, bake mode
  opens it to 100, under the target and at the target with \<open>targetPO\<close> above the percent.
\<close>

theorem anti_hunt_counterexample:
  "dontTurndown (tick_update example_params
      ((settled_state (replicate 16 300))\<lparr>valveTurnupCountdownM := 4\<rparr>)
      ((example_input 20 308)\<lparr>maxPCOpen := 60\<rparr>)) \<and>
   uint (computeRequiredTRVPercentOpen example_params
      ((tick_update example_params
          ((settled_state (replicate 16 300))\<lparr>valveTurnupCountdownM := 4\<rparr>)
          ((example_input 20 308)\<lparr>maxPCOpen := 60\<rparr>))\<lparr>valveTurnupCountdownM := 0\<rparr>)
      80 ((example_input 20 308)\<lparr>maxPCOpen := 60\<rparr>)) < uint (80 :: uint8_t) \<and>
   fst (tick example_params 80
      ((settled_state (replicate 16 300))\<lparr>valveTurnupCountdownM := 4\<rparr>)
      ((example_input 20 308)\<lparr>maxPCOpen := 60\<rparr>)) = 60 \<and>
   dontTurndown (tick_update example_params
      ((settled_state (replicate 16 300))\<lparr>valveTurnupCountdownM := 4\<rparr>)
      ((example_input 20 308)\<lparr>maxPCOpen := 60, inBakeMode := True\<rparr>)) \<and>
   uint (computeRequiredTRVPercentOpen example_params
      ((tick_update example_params
          ((settled_state (replicate 16 300))\<lparr>valveTurnupCountdownM := 4\<rparr>)
          ((example_input 20 308)\<lparr>maxPCOpen := 60, inBakeMode := True\<rparr>))\<lparr>valveTurnupCountdownM := 0\<rparr>)
      80 ((example_input 20 308)\<lparr>maxPCOpen := 60, inBakeMode := True\<rparr>)) < uint (80 :: uint8_t) \<and>
   fst (tick example_params 80
      ((settled_state (replicate 16 300))\<lparr>valveTurnupCountdownM := 4\<rparr>)
      ((example_input 20 308)\<lparr>maxPCOpen := 60, inBakeMode := True\<rparr>)) = 60 \<and>
   dontTurnup (tick_update example_params
      ((settled_state (replicate 16 300))\<lparr>valveTurndownCountdownM := 4\<rparr>)
      ((example_input 20 308)\<lparr>inBakeMode := True\<rparr>)) \<and>
   uint (10 :: uint8_t) < uint (computeRequiredTRVPercentOpen example_params
      ((tick_update example_params
          ((settled_state (replicate 16 300))\<lparr>valveTurndownCountdownM := 4\<rparr>)
          ((example_input 20 308)\<lparr>inBakeMode := True\<rparr>))\<lparr>valveTurndownCountdownM := 0\<rparr>)
      10 ((example_input 20 308)\<lparr>inBakeMode := True\<rparr>)) \<and>
   fst (tick example_params 10
      ((settled_state (replicate 16 300))\<lparr>valveTurndownCountdownM := 4\<rparr>)
      ((example_input 20 308)\<lparr>inBakeMode := True\<rparr>)) = 100 \<and>
   dontTurnup (tick_update example_params
      ((settled_state (replicate 16 315))\<lparr>valveTurndownCountdownM := 4\<rparr>)
      ((example_input 20 323)\<lparr>inBakeMode := True\<rparr>)) \<and>
   adjustedTempC example_params (tick_update example_params
      ((settled_state (replicate 16 315))\<lparr>valveTurndownCountdownM := 4\<rparr>)
      ((example_input 20 323)\<lparr>inBakeMode := True\<rparr>))
      ((example_input 20 323)\<lparr>inBakeMode := True\<rparr>) = 20 \<and>
   uint (10 :: uint8_t) < uint (computeRequiredTRVPercentOpen example_params
      ((tick_update example_params
          ((settled_state (replicate 16 315))\<lparr>valveTurndownCountdownM := 4\<rparr>)
          ((example_input 20 323)\<lparr>inBakeMode := True\<rparr>))\<lparr>valveTurndownCountdownM := 0\<rparr>)
      10 ((example_input 20 323)\<lparr>inBakeMode := True\<rparr>)) \<and>
   fst (tick example_params 10
      ((settled_state (replicate 16 315))\<lparr>valveTurndownCountdownM := 4\<rparr>)
      ((example_input 20 323)\<lparr>inBakeMode := True\<rparr>)) = 100"
  by (intro conjI; code_simp)

text \<open>
  The side conditions of the two holds are needed. Under the target a \<open>maxPCOpen\<close> of 255
  lets the slew from 253 wrap to 2 while turning down is deferred; at the target a
  \<open>minPCOpen\<close> of 90 above a \<open>maxPCOpen\<close> of 60 puts \<open>targetPO\<close> at 90, and bake mode
  brings a valve at 80 down to 60. With a safer-open threshold of 0 the window-open
  response takes a valve at 40 to 255 while turning up is deferred; over the target, with
  \<open>maxPCOpen\<close> 5, a valve at 7 slews down past zero to 253.
\<close>

lemma anti_hunt_side_conditions:
  "dontTurndown (tick_update example_params
      ((settled_state (replicate 16 300))\<lparr>valveTurnupCountdownM := 4\<rparr>)
      ((example_input 20 308)\<lparr>maxPCOpen := 255\<rparr>)) \<and>
   fst (tick example_params 253
      ((settled_state (replicate 16 300))\<lparr>valveTurnupCountdownM := 4\<rparr>)
      ((example_input 20 308)\<lparr>maxPCOpen := 255\<rparr>)) = 2 \<and>
   dontTurndown (tick_update example_params
      ((settled_state (replicate 16 315))\<lparr>valveTurnupCountdownM := 4\<rparr>)
      ((example_input 20 323)\<lparr>inBakeMode := True, minPCOpen := 90, maxPCOpen := 60\<rparr>)) \<and>
   targetPO example_params (tick_update example_params
      ((settled_state (replicate 16 315))\<lparr>valveTurnupCountdownM := 4\<rparr>)
      ((example_input 20 323)\<lparr>inBakeMode := True, minPCOpen := 90, maxPCOpen := 60\<rparr>))
      ((example_input 20 323)\<lparr>inBakeMode := True, minPCOpen := 90, maxPCOpen := 60\<rparr>) = 90 \<and>
   fst (tick example_params 80
      ((settled_state (replicate 16 315))\<lparr>valveTurnupCountdownM := 4\<rparr>)
      ((example_input 20 323)\<lparr>inBakeMode := True, minPCOpen := 90, maxPCOpen := 60\<rparr>)) = 60 \<and>
   dontTurnup (tick_update (example_params\<lparr>DEFAULT_VALVE_PC_SAFER_OPEN := 0\<rparr>)
      ((settled_state (falling_history 280))\<lparr>valveTurndownCountdownM := 4\<rparr>)
      ((example_input 20 288)\<lparr>hasEcoBias := True\<rparr>)) \<and>
   fst (tick (example_params\<lparr>DEFAULT_VALVE_PC_SAFER_OPEN := 0\<rparr>) 40
      ((settled_state (falling_history 280))\<lparr>valveTurndownCountdownM := 4\<rparr>)
      ((example_input 20 288)\<lparr>hasEcoBias := True\<rparr>)) = 255 \<and>
   dontTurnup (tick_update example_params
      ((settled_state (replicate 16 400))\<lparr>valveTurndownCountdownM := 4\<rparr>)
      ((example_input 20 408)\<lparr>minPCOpen := 0, maxPCOpen := 5\<rparr>)) \<and>
   fst (tick example_params 7
      ((settled_state (replicate 16 400))\<lparr>valveTurndownCountdownM := 4\<rparr>)
      ((example_input 20 408)\<lparr>minPCOpen := 0, maxPCOpen := 5\<rparr>)) = 253"
  by (intro conjI; code_simp)

subsection \<open>The range of the percentage\<close>

text \<open>
  While the percent is at most \<open>maxPCOpen\<close>, with \<open>minPCOpen\<close> at most \<open>maxPCOpen\<close>,
  \<open>maxPCOpen\<close> at most 100 and a safer-open threshold of at least 1, the new percent is at
  most 100.
\<close>

lemma u8_le:
  assumes "0 \<le> x" "x \<le> m" "m \<le> 100"
  shows "uint (word_of_int x :: 8 word) \<le> m"
proof -
  have "uint (word_of_int x :: 8 word) = x"
    using assms by (intro u8) auto
  with assms show ?thesis by linarith
qed

lemma slewOpen_results:
  "slewOpen P s valvePCOpen inputState = valvePCOpen \<or>
   slewOpen P s valvePCOpen inputState = word_of_int (uint valvePCOpen + 1) \<or>
   slewOpen P s valvePCOpen inputState =
      word_of_int (min (uint (maxPCOpen inputState))
        (min 99 (uint (DEFAULT_VALVE_PC_MODERATELY_OPEN P) + 10))) \<or>
   slewOpen P s valvePCOpen inputState = word_of_int (max 5 (uint (minPCOpen inputState))) \<or>
   slewOpen P s valvePCOpen inputState = word_of_int (max 20 (uint (minPCOpen inputState))) \<or>
   slewOpen P s valvePCOpen inputState =
      word_of_int (min (uint (word_of_int (uint valvePCOpen + 5) :: uint8_t))
                       (uint (maxPCOpen inputState))) \<or>
   slewOpen P s valvePCOpen inputState =
      word_of_int (min (uint (word_of_int (uint valvePCOpen + 20) :: uint8_t))
                       (uint (maxPCOpen inputState)))"
  by (simp add: slewOpen_def Let_def slew_defs u8)

lemma slewOpen_le_100:
  assumes "uint valvePCOpen < uint (maxPCOpen inputState)"
    and "uint (minPCOpen inputState) \<le> uint (maxPCOpen inputState)"
    and "uint (maxPCOpen inputState) \<le> 100"
  shows "uint (slewOpen P s valvePCOpen inputState) \<le> 100"
proof -
  let ?v = "uint valvePCOpen" and ?m = "uint (maxPCOpen inputState)"
  let ?n = "uint (minPCOpen inputState)" and ?o = "uint (DEFAULT_VALVE_PC_MODERATELY_OPEN P)"
  have nonneg: "0 \<le> ?v" "0 \<le> ?m" "0 \<le> ?n" "0 \<le> ?o"
    by simp_all
  have plus: "uint (word_of_int (?v + k) :: uint8_t) = ?v + k" if "0 \<le> k" "k \<le> 20" for k
    using that assms nonneg by (intro u8) linarith+
  from slewOpen_results [of P s valvePCOpen inputState] show ?thesis
  proof (elim disjE)
    assume r: "slewOpen P s valvePCOpen inputState = valvePCOpen"
    show ?thesis unfolding r using assms by linarith
  next
    assume r: "slewOpen P s valvePCOpen inputState = word_of_int (?v + 1)"
    show ?thesis unfolding r using assms nonneg by (intro u8_le [where m = 100]) linarith+
  next
    assume r: "slewOpen P s valvePCOpen inputState = word_of_int (min ?m (min 99 (?o + 10)))"
    show ?thesis unfolding r using assms nonneg by (intro u8_le [where m = 100]) linarith+
  next
    assume r: "slewOpen P s valvePCOpen inputState = word_of_int (max 5 ?n)"
    show ?thesis unfolding r using assms nonneg by (intro u8_le [where m = 100]) linarith+
  next
    assume r: "slewOpen P s valvePCOpen inputState = word_of_int (max 20 ?n)"
    show ?thesis unfolding r using assms nonneg by (intro u8_le [where m = 100]) linarith+
  next
    assume r: "slewOpen P s valvePCOpen inputState =
        word_of_int (min (uint (word_of_int (?v + 5) :: uint8_t)) ?m)"
    have p: "uint (word_of_int (?v + 5) :: uint8_t) = ?v + 5"
      by (rule plus) simp_all
    show ?thesis unfolding r p using assms nonneg
      by (intro u8_le [where m = 100]) linarith+
  next
    assume r: "slewOpen P s valvePCOpen inputState =
        word_of_int (min (uint (word_of_int (?v + 20) :: uint8_t)) ?m)"
    have p: "uint (word_of_int (?v + 20) :: uint8_t) = ?v + 20"
      by (rule plus) simp_all
    show ?thesis unfolding r p using assms nonneg
      by (intro u8_le [where m = 100]) linarith+
  qed
qed

lemma percent_in_range_within_max:
  assumes vm: "uint valvePCOpen \<le> uint (maxPCOpen inputState)"
    and nm: "uint (minPCOpen inputState) \<le> uint (maxPCOpen inputState)"
    and m: "uint (maxPCOpen inputState) \<le> 100"
    and safer: "0 < uint (DEFAULT_VALVE_PC_SAFER_OPEN P)"
  shows "uint (computeRequiredTRVPercentOpen P s valvePCOpen inputState) \<le> 100"
proof -
  let ?v = "uint valvePCOpen" and ?m = "uint (maxPCOpen inputState)"
  let ?t = "uint (targetPO P s inputState)"
  have window: "uint (closeForOpenWindow P s valvePCOpen) \<le> 100"
    using closeForOpenWindow_le [OF safer, of s valvePCOpen] vm m by linarith
  have slew: "uint (slewOpen P s valvePCOpen inputState) \<le> 100" if "?v < ?m"
    using that nm m by (rule slewOpen_le_100)
  have under: "uint (underTarget P s valvePCOpen inputState) \<le> 100"
    using window slew m by (simp add: underTarget_def)
  have over: "uint (overTarget P s valvePCOpen inputState) \<le> 100"
    using overTarget_le [OF disjI1 [OF vm], of P s] vm m by linarith
  have tm: "?t \<le> ?m"
    using nm by (rule targetPO_le_max)
  have tooOpen: "uint (slightlyTooOpen P s valvePCOpen inputState) \<le> 100" if "?t < ?v"
    using slightlyTooOpen_le [OF that] vm m by linarith
  have tooClosed: "uint (slightlyTooClosed P s valvePCOpen inputState) \<le> 100" if lt: "?v < ?t"
  proof -
    have d: "uint (word_of_int (?t - ?v) :: uint8_t) = ?t - ?v"
      using lt by (intro u8_diff) simp
    have v0: "0 \<le> ?v" by simp
    from slightlyTooClosed_cases [of P s valvePCOpen inputState] show ?thesis
    proof (elim disjE conjE)
      assume r: "slightlyTooClosed P s valvePCOpen inputState = valvePCOpen"
      show ?thesis unfolding r using vm m by linarith
    next
      assume r: "slightlyTooClosed P s valvePCOpen inputState = maxPCOpen inputState"
      show ?thesis unfolding r using m .
    next
      assume r: "slightlyTooClosed P s valvePCOpen inputState = word_of_int (?v + 1)"
      show ?thesis unfolding r using lt tm m v0 by (intro u8_le [where m = 100]) linarith+
    next
      assume "10 < uint (word_of_int (?t - ?v) :: uint8_t)"
        and r: "slightlyTooClosed P s valvePCOpen inputState = word_of_int (?v + 10)"
      then have "?v + 10 \<le> 100" unfolding d using tm m by linarith
      then show ?thesis unfolding r using v0 by (intro u8_le [where m = 100]) linarith+
    next
      assume "5 < uint (word_of_int (?t - ?v) :: uint8_t)"
        and r: "slightlyTooClosed P s valvePCOpen inputState = word_of_int (?v + 5)"
      then have "?v + 5 \<le> 100" unfolding d using tm m by linarith
      then show ?thesis unfolding r using v0 by (intro u8_le [where m = 100]) linarith+
    next
      assume r: "slightlyTooClosed P s valvePCOpen inputState = targetPO P s inputState"
      show ?thesis unfolding r using tm m by linarith
    qed
  qed
  have at: "uint (atTarget P s valvePCOpen inputState) \<le> 100"
  proof (cases "?t < ?v")
    case True
    then show ?thesis using tooOpen vm m by (simp add: atTarget_def Let_def)
  next
    case False
    then have "targetPO P s inputState \<noteq> valvePCOpen \<Longrightarrow> ?v < ?t"
      by (simp add: word_uint_eq_iff)
    then show ?thesis using False tooClosed vm m by (auto simp add: atTarget_def Let_def)
  qed
  from under over at show ?thesis
    by (simp add: computeRequiredTRVPercentOpen_def)
qed

lemma underflow_step1:
  "tick example_params 0 (fresh_state (replicate 16 0)) (low_max_input 20) = (5, heated_state True 5)"
  by code_simp

lemma underflow_step2:
  "tick example_params 5 (heated_state True 5) (low_max_input 18) = (5, heated_state False 4)"
  by code_simp

lemma underflow_step3:
  "tick example_params 5 (heated_state False 4) (low_max_input 18) = (5, heated_state False 3)"
  "tick example_params 5 (heated_state False 3) (low_max_input 18) = (5, heated_state False 2)"
  "tick example_params 5 (heated_state False 2) (low_max_input 18) = (5, heated_state False 1)"
  by code_simp+

lemma underflow_step6:
  "fst (tick example_params 5 (heated_state False 1) (low_max_input 18)) = 251"
  by code_simp

lemma underflow_ticks:
  "fst (ticks example_params 0 (fresh_state (replicate 16 0))
     [low_max_input 20, low_max_input 18, low_max_input 18, low_max_input 18,
      low_max_input 18, low_max_input 18]) = 251"
  apply (simp only: ticks.simps underflow_step1 underflow_step2 underflow_step3 prod.case)
  apply (simp only: case_prod_beta fst_conv underflow_step6)
  done

lemma underflow_compute:
  "computeRequiredTRVPercentOpen example_params (settled_state (replicate 16 400)) 7
      ((example_input 20 408)\<lparr>minPCOpen := 0, maxPCOpen := 5\<rparr>) = 253"
  by code_simp

text \<open>
  Claim C1. The percentage can leave the range from 0 to 100. Over the target, with the
  valve at 7 percent, \<open>minPCOpen\<close> 0 and \<open>maxPCOpen\<close> 5, the test against
  \<^verbatim>\<open>constrain(lingerThreshold + 10, 10, maxPCOpen)\<close>, which is 5, lets the valve slew
  down by 10: 7 - 10 as a \<^verbatim>\<open>uint8_t\<close> is 253. The ticks themselves reach such a state
  from a freshly constructed one: with \<open>maxPCOpen\<close> 3 the valve opens from 0 to 5 just
  under a target of 20 degrees, holds while turning down is deferred once the target is 18
  degrees, and then slews down to 251.
\<close>

theorem percent_out_of_range:
  "uint (computeRequiredTRVPercentOpen example_params (settled_state (replicate 16 400)) 7
      ((example_input 20 408)\<lparr>minPCOpen := 0, maxPCOpen := 5\<rparr>)) = 253 \<and>
   uint (fst (ticks example_params 0 (fresh_state (replicate 16 0))
     [low_max_input 20, low_max_input 18, low_max_input 18, low_max_input 18,
      low_max_input 18, low_max_input 18])) = 251"
  by (simp only: underflow_compute underflow_ticks) simp

end
